theory Spec2Isabelle
  imports Main
begin

section \<open>JavaScript objects with string keys\<close>

text \<open>
  A plain JavaScript object is modelled by the list of its own properties in the order
  \<^verbatim>\<open>Object.keys\<close> enumerates them (insertion order; none of the keys used by the
  services below is an array index, so no key is moved to the front).  Reading a
  property gives \<open>None\<close> for \<^verbatim>\<open>undefined\<close>; assigning keeps the position of an
  existing key and appends a new one; \<^verbatim>\<open>delete\<close> removes the key.  An object has
  each key once; the functions below keep it so, and \<open>js_keys\<close> is \<open>map fst\<close> on such
  a list (\<open>js_keys_distinct\<close>).  Calls of the logger have no effect on what the
  services compute and are left out throughout.
\<close>

type_synonym 'v jsobj = "(string \<times> 'v) list"

definition js_get :: "'v jsobj \<Rightarrow> string \<Rightarrow> 'v option" where
  "js_get obj k = map_of obj k"

fun js_set :: "'v jsobj \<Rightarrow> string \<Rightarrow> 'v \<Rightarrow> 'v jsobj" where
  "js_set [] k v = [(k, v)]"
| "js_set (p # ps) k v = (if fst p = k then (k, v) # ps else p # js_set ps k v)"

definition js_delete :: "'v jsobj \<Rightarrow> string \<Rightarrow> 'v jsobj" where
  "js_delete obj k = filter (\<lambda>p. fst p \<noteq> k) obj"

definition js_keys :: "'v jsobj \<Rightarrow> string list" where
  "js_keys obj = remdups (map fst obj)"

text \<open>Truthiness of a property holding a string: defined and not the empty string.\<close>

definition truthy :: "string option \<Rightarrow> bool" where
  "truthy x = (case x of None \<Rightarrow> False | Some s \<Rightarrow> s \<noteq> [])"

text \<open>\<^verbatim>\<open>String.prototype.endsWith\<close>.\<close>

definition endsWith :: "string \<Rightarrow> string \<Rightarrow> bool" where
  "endsWith s suf = (length suf \<le> length s \<and> drop (length s - length suf) s = suf)"

section \<open>services/csvImport.js: mapContactFields\<close>

text \<open>A parsed CSV row: header names to cell texts (csv-parser yields strings only).\<close>

type_synonym csv_row = "string jsobj"

definition standardFields :: "string list" where
  "standardFields =
     [''FirstName'', ''Email'', ''Phone'', ''MobilePhone'', ''Title'',
      ''Department'', ''Description'']"

definition mailingFields :: "string list" where
  "mailingFields =
     [''MailingStreet'', ''MailingCity'', ''MailingState'', ''MailingPostalCode'',
      ''MailingCountry'']"

text \<open>\<^verbatim>\<open>if (csvContact[field]) contactRecord[field] = csvContact[field]\<close>\<close>

definition copy_if_truthy :: "csv_row \<Rightarrow> string \<Rightarrow> string jsobj \<Rightarrow> string jsobj" where
  "copy_if_truthy csvContact field contactRecord =
     (case js_get csvContact field of
        None \<Rightarrow> contactRecord
      | Some v \<Rightarrow> if v \<noteq> [] then js_set contactRecord field v else contactRecord)"

text \<open>
  The body of the last \<^verbatim>\<open>forEach\<close>: a key ending in \<^verbatim>\<open>__c\<close> is copied with
  whatever value it has.  The key comes from \<^verbatim>\<open>Object.keys(csvContact)\<close>, so the
  \<open>None\<close> branch is never taken.
\<close>

definition copy_custom :: "csv_row \<Rightarrow> string \<Rightarrow> string jsobj \<Rightarrow> string jsobj" where
  "copy_custom csvContact key contactRecord =
     (if endsWith key ''__c''
      then (case js_get csvContact key of
              None \<Rightarrow> contactRecord
            | Some v \<Rightarrow> js_set contactRecord key v)
      else contactRecord)"

text \<open>The condition guarding the block of address assignments.\<close>

definition any_mailing :: "csv_row \<Rightarrow> bool" where
  "any_mailing csvContact \<longleftrightarrow>
     truthy (js_get csvContact ''MailingStreet'') \<or> truthy (js_get csvContact ''MailingCity'')
     \<or> truthy (js_get csvContact ''MailingState'')
     \<or> truthy (js_get csvContact ''MailingPostalCode'')
     \<or> truthy (js_get csvContact ''MailingCountry'')"

definition mapContactFields :: "csv_row \<Rightarrow> string jsobj" where
  "mapContactFields csvContact =
     (let r0 = [(''LastName'',
                 (case js_get csvContact ''LastName'' of
                    None \<Rightarrow> ''Unknown''
                  | Some v \<Rightarrow> if v \<noteq> [] then v else ''Unknown''))];
          r1 = fold (copy_if_truthy csvContact) standardFields r0;
          r2 = (if any_mailing csvContact
                then fold (copy_if_truthy csvContact) mailingFields r1
                else r1);
          r3 = copy_if_truthy csvContact ''AccountName'' r2
      in fold (copy_custom csvContact) (js_keys csvContact) r3)"

section \<open>The outside world\<close>

text \<open>
  The services talk to Salesforce (through \<^verbatim>\<open>services/salesforce.js\<close>, which forwards
  to the jsforce connection and rethrows whatever it throws) and to the file system.
  Each external call is recorded as an event; the state threaded through the model is
  the list of events so far, oldest first.  What a call answers is given by the world,
  which may look at everything that happened before: this covers a Salesforce org that
  changes as records are created, and a file system that changes as files are written
  and removed.
\<close>

datatype js_error = Error (message: string)

record save_result =
  sr_success :: bool
  sr_id :: string
  sr_errors :: "string list option"

record 'v query_result =
  records :: "'v jsobj list option"

datatype 'v event =
    EvParse string
  | EvQuery string
  | EvCreate string "string jsobj"
  | EvUnlink string
  | EvWrite string "string list" "(string \<times> 'v option) list list"

type_synonym 'v trace = "'v event list"

text \<open>
  How reading and parsing an upload can end.  In
  \<^verbatim>\<open>fs.createReadStream(filePath).pipe(csv()).on('data', ..).on('end', ..).on('error', ..)\<close>
  the three listeners are attached to what \<^verbatim>\<open>pipe\<close> returns, the parser.  When the
  parser ends, the promise is resolved with the rows; when the parser emits an error, the
  promise is rejected with it.  An error of the reading stream (a missing or unreadable
  file) has no listener: it is not forwarded by \<^verbatim>\<open>pipe\<close>, the parser never ends, and
  the promise is neither resolved nor rejected (Node reports the error as an uncaught
  exception of the process, not to the caller of the import).
\<close>

datatype parse_outcome =
    Rows "csv_row list"
  | ParserError js_error
  | ReaderError js_error

record 'v world =
  parse_csv :: "'v trace \<Rightarrow> string \<Rightarrow> parse_outcome"
  sf_query :: "'v trace \<Rightarrow> string \<Rightarrow> js_error + 'v query_result"
  sf_create :: "'v trace \<Rightarrow> string \<Rightarrow> string jsobj \<Rightarrow> js_error + save_result"
  fs_unlink :: "'v trace \<Rightarrow> string \<Rightarrow> js_error option"
  fs_write :: "'v trace \<Rightarrow> string \<Rightarrow> js_error option"
  clock_iso :: "'v trace \<Rightarrow> string"
  path_join :: "string \<Rightarrow> string \<Rightarrow> string"
  string_trim :: "string \<Rightarrow> string"

text \<open>
  \<open>parse_csv\<close> is the reading and parsing of the upload, with the three ends above.
  \<open>sf_query\<close> and \<open>sf_create\<close> are
  \<^verbatim>\<open>querySalesforce\<close> and \<^verbatim>\<open>createRecord\<close>; \<open>sr_errors\<close> is \<open>None\<close> when the
  answer has no \<^verbatim>\<open>errors\<close> property.  \<open>fs_unlink\<close> and \<open>fs_write\<close> answer \<open>None\<close>
  when \<^verbatim>\<open>fs.unlinkSync\<close>, respectively the write stream, finishes without an error.
  \<open>clock_iso\<close> is \<^verbatim>\<open>new Date().toISOString()\<close>, \<open>path_join\<close> is \<^verbatim>\<open>path.join\<close>
  and \<open>string_trim\<close> is \<^verbatim>\<open>String.prototype.trim\<close>, the three as the runtime provides
  them (the last one strips every Unicode white space and line terminator).
\<close>

section \<open>services/csvImport.js: findOrCreateAccount\<close>

text \<open>\<^verbatim>\<open>accountName.replace(/'/g, "\\'")\<close>: a backslash before every single quote.\<close>

definition escape_quotes :: "string \<Rightarrow> string" where
  "escape_quotes s = concat (map (\<lambda>c. if c = CHR 0x27 then [CHR 0x5C, CHR 0x27] else [c]) s)"

definition account_query :: "string \<Rightarrow> string" where
  "account_query accountName =
     ''SELECT Id FROM Account WHERE Name = '' @ [CHR 0x27] @ escape_quotes accountName @ [CHR 0x27]"

text \<open>
  The import reads the \<^verbatim>\<open>Id\<close> of a queried account as a string, so here the world
  answers queries with records of strings.  The result is the account identifier, or
  \<open>None\<close> for \<^verbatim>\<open>null\<close> (and for the \<^verbatim>\<open>undefined\<close> read from a first record without
  an \<^verbatim>\<open>Id\<close>).  Both calls sit inside one \<^verbatim>\<open>try\<close> whose handler returns \<^verbatim>\<open>null\<close>.
\<close>

definition findOrCreateAccount ::
  "string world \<Rightarrow> string trace \<Rightarrow> string \<Rightarrow> string option \<times> string trace" where
  "findOrCreateAccount w tr accountName =
     (let query = account_query accountName;
          tr1 = tr @ [EvQuery query]
      in case sf_query w tr query of
           Inl e \<Rightarrow> (None, tr1)
         | Inr result \<Rightarrow>
             (case records result of
                Some (r # rs) \<Rightarrow> (js_get r ''Id'', tr1)
              | _ \<Rightarrow>
                 (let account = [(''Name'', accountName)];
                      tr2 = tr1 @ [EvCreate ''Account'' account]
                  in case sf_create w tr1 ''Account'' account of
                       Inl e \<Rightarrow> (None, tr2)
                     | Inr createResult \<Rightarrow>
                         if sr_success createResult then (Some (sr_id createResult), tr2)
                         else (None, tr2))))"

section \<open>services/csvImport.js: importContactsFromCSV\<close>

record success_entry =
  se_id :: string
  se_name :: string

record error_entry =
  ee_record :: "string jsobj"
  ee_error :: string

record loop_state =
  ls_trace :: "string trace"
  ls_results :: "save_result list"
  ls_errors :: "error_entry list"
  ls_successfulRecords :: "success_entry list"

record import_result =
  totalProcessed :: nat
  successful :: nat
  failed :: nat
  successfulRecords :: "success_entry list"
  errors :: "error_entry list"

text \<open>
  How the call ends for its caller: it returns the aggregate, it throws, or its promise
  never settles.
\<close>

datatype import_outcome =
    Returned import_result
  | Thrown js_error
  | NeverSettles

text \<open>\<^verbatim>\<open>Array.prototype.join\<close>.\<close>

fun js_join :: "string \<Rightarrow> string list \<Rightarrow> string" where
  "js_join sep [] = []"
| "js_join sep [x] = x"
| "js_join sep (x # y # ys) = x @ sep @ js_join sep (y # ys)"

text \<open>
  Lines 35 to 45: the candidate record, with the account resolved.  The account name is
  looked up only when the mapped record carries one; the identifier is attached only
  when it is truthy; the name is deleted in either case.
\<close>

definition resolveContact ::
  "string world \<Rightarrow> string trace \<Rightarrow> csv_row \<Rightarrow> string jsobj \<times> string trace" where
  "resolveContact w tr contact =
     (let contactRecord = mapContactFields contact
      in case js_get contactRecord ''AccountName'' of
           None \<Rightarrow> (contactRecord, tr)
         | Some accountName \<Rightarrow>
             if accountName = [] then (contactRecord, tr)
             else
               (let (accountId, tr1) = findOrCreateAccount w tr accountName;
                    contactRecord1 =
                      (case accountId of
                         None \<Rightarrow> contactRecord
                       | Some i \<Rightarrow>
                           if i \<noteq> [] then js_set contactRecord ''AccountId'' i
                           else contactRecord)
                in (js_delete contactRecord1 ''AccountName'', tr1)))"

text \<open>\<^verbatim>\<open>`${contactRecord.FirstName || ''} ${contactRecord.LastName}`.trim()\<close>\<close>

definition display_name :: "'v world \<Rightarrow> string jsobj \<Rightarrow> string" where
  "display_name w contactRecord =
     string_trim w
             ((case js_get contactRecord ''FirstName'' of
                 None \<Rightarrow> []
               | Some f \<Rightarrow> f)
              @ '' '' @
              (case js_get contactRecord ''LastName'' of
                 None \<Rightarrow> ''undefined''
               | Some l \<Rightarrow> l))"

text \<open>
  The body of the inner \<^verbatim>\<open>try\<close>.  It raises when \<^verbatim>\<open>createRecord\<close> raises and when
  a failure answer has no \<^verbatim>\<open>errors\<close> to join; the calls already made stay in the
  trace, the lists are untouched.
\<close>

definition try_contact ::
  "string world \<Rightarrow> loop_state \<Rightarrow> csv_row \<Rightarrow> (js_error \<times> string trace) + loop_state" where
  "try_contact w st contact =
     (let (contactRecord, tr1) = resolveContact w (ls_trace st) contact;
          tr2 = tr1 @ [EvCreate ''Contact'' contactRecord]
      in case sf_create w tr1 ''Contact'' contactRecord of
           Inl e \<Rightarrow> Inl (e, tr2)
         | Inr result \<Rightarrow>
             if sr_success result
             then Inr (st\<lparr>ls_trace := tr2,
                          ls_successfulRecords := ls_successfulRecords st @
                            [\<lparr>se_id = sr_id result, se_name = display_name w contactRecord\<rparr>],
                          ls_results := ls_results st @ [result]\<rparr>)
             else (case sr_errors result of
                     None \<Rightarrow>
                       Inl (Error ''Cannot read properties of undefined (reading 'join')'', tr2)
                   | Some es \<Rightarrow>
                       Inr (st\<lparr>ls_trace := tr2,
                                ls_errors := ls_errors st @
                                  [\<lparr>ee_record = contactRecord, ee_error = js_join '', '' es\<rparr>],
                                ls_results := ls_results st @ [result]\<rparr>)))"

text \<open>The inner \<^verbatim>\<open>try\<close> with its \<^verbatim>\<open>catch\<close>: one iteration of the loop.\<close>

definition process_contact :: "string world \<Rightarrow> loop_state \<Rightarrow> csv_row \<Rightarrow> loop_state" where
  "process_contact w st contact =
     (case try_contact w st contact of
        Inr st' \<Rightarrow> st'
      | Inl (e, tr') \<Rightarrow>
          st\<lparr>ls_trace := tr',
             ls_errors := ls_errors st @ [\<lparr>ee_record = contact, ee_error = message e\<rparr>]\<rparr>)"

primrec import_loop :: "string world \<Rightarrow> loop_state \<Rightarrow> csv_row list \<Rightarrow> loop_state" where
  "import_loop w st [] = st"
| "import_loop w st (contact # contacts) = import_loop w (process_contact w st contact) contacts"

definition initial_state :: "string trace \<Rightarrow> loop_state" where
  "initial_state tr =
     \<lparr>ls_trace = tr, ls_results = [], ls_errors = [], ls_successfulRecords = []\<rparr>"

text \<open>
  The whole function.  The outer \<^verbatim>\<open>catch\<close> logs and rethrows, so an error of the
  parser or of \<^verbatim>\<open>fs.unlinkSync\<close> is thrown to the caller.  After an error of the
  reading stream the \<^verbatim>\<open>await\<close> never resumes: nothing after it runs and the caller
  gets neither a result nor an exception.
\<close>

definition importContactsFromCSV ::
  "string world \<Rightarrow> string trace \<Rightarrow> string \<Rightarrow> import_outcome \<times> string trace" where
  "importContactsFromCSV w tr filePath =
     (let tr0 = tr @ [EvParse filePath]
      in case parse_csv w tr filePath of
           ReaderError e \<Rightarrow> (NeverSettles, tr0)
         | ParserError e \<Rightarrow> (Thrown e, tr0)
         | Rows contacts \<Rightarrow>
             (let st = import_loop w (initial_state tr0) contacts;
                  tr1 = ls_trace st @ [EvUnlink filePath]
              in case fs_unlink w (ls_trace st) filePath of
                   Some e \<Rightarrow> (Thrown e, tr1)
                 | None \<Rightarrow>
                     (Returned \<lparr>totalProcessed = length contacts,
                           successful = length (ls_successfulRecords st),
                           failed = length (ls_errors st),
                           successfulRecords = ls_successfulRecords st,
                           errors = ls_errors st\<rparr>, tr1)))"

text \<open>Classifying events, and the events a call has added to the trace.\<close>

definition is_unlink :: "'v event \<Rightarrow> bool" where
  "is_unlink ev = (case ev of EvUnlink p \<Rightarrow> True | _ \<Rightarrow> False)"

definition is_write :: "'v event \<Rightarrow> bool" where
  "is_write ev = (case ev of EvWrite p hs rows \<Rightarrow> True | _ \<Rightarrow> False)"

definition is_contact_create :: "'v event \<Rightarrow> bool" where
  "is_contact_create ev = (case ev of EvCreate obj r \<Rightarrow> obj = ''Contact'' | _ \<Rightarrow> False)"

definition account_event :: "'v event \<Rightarrow> bool" where
  "account_event ev =
     (case ev of EvQuery q \<Rightarrow> True | EvCreate obj r \<Rightarrow> obj = ''Account'' | _ \<Rightarrow> False)"

definition new_events :: "'v trace \<Rightarrow> 'v trace \<Rightarrow> 'v trace" where
  "new_events before after = drop (length before) after"

section \<open>A small world to run the services in\<close>

text \<open>
  An upload \<^verbatim>\<open>up.csv\<close> of three rows, an upload \<^verbatim>\<open>bad.csv\<close> on which the parser
  emits an error, and no other file (the reading stream fails); an org that knows the
  account Acme, does not know Globex and Hooli, fails every other query and lets only
  Globex be created; a Contact create that raises for the last name Boom, reports a
  failure for the placeholder last name and succeeds otherwise.  All texts of this world
  are ASCII, where \<^verbatim>\<open>trim\<close> strips exactly the six characters of \<open>ascii_whitespace\<close>;
  the directory handed to \<open>path_join\<close> is \<^verbatim>\<open>/tmp\<close> and the file name has no
  separator, where \<^verbatim>\<open>path.join\<close> puts one slash between the two.
\<close>

definition ascii_whitespace :: "char \<Rightarrow> bool" where
  "ascii_whitespace c \<longleftrightarrow>
     c \<in> set [CHR 0x09, CHR 0x0A, CHR 0x0B, CHR 0x0C, CHR 0x0D, CHR 0x20]"

definition ascii_trim :: "string \<Rightarrow> string" where
  "ascii_trim s = rev (dropWhile ascii_whitespace (rev (dropWhile ascii_whitespace s)))"

definition demo_rows :: "csv_row list" where
  "demo_rows =
     [[(''FirstName'', ''Ann''), (''LastName'', ''Lee''), (''AccountName'', ''Acme'')],
      [(''FirstName'', ''Bob''), (''LastName'', ''Boom'')],
      [(''FirstName'', ''Cy''), (''LastName'', ''''), (''Score__c'', ''''), (''Nick'', ''C'')]]"

definition demo_world :: "string world" where
  "demo_world =
     \<lparr>parse_csv = (\<lambda>tr p.
         if p = ''up.csv'' then Rows demo_rows
         else if p = ''bad.csv'' then ParserError (Error ''Row exceeds the maximum size'')
         else ReaderError (Error ''ENOENT'')),
      sf_query = (\<lambda>tr q.
         if q = account_query ''Acme''
           then Inr \<lparr>records = Some [[(''attributes'', ''Account''), (''Id'', ''001A'')]]\<rparr>
         else if q = account_query ''Globex'' then Inr \<lparr>records = Some []\<rparr>
         else if q = account_query ''Hooli'' then Inr \<lparr>records = None\<rparr>
         else if q = ''SELECT Id, Name FROM Contact''
           then Inr \<lparr>records = Some [[(''attributes'', ''Contact''), (''Id'', ''003C''),
                                        (''Name'', ''Ann Lee'')]]\<rparr>
         else if q = ''SELECT Id FROM Lead'' then Inr \<lparr>records = None\<rparr>
         else Inl (Error ''MALFORMED_QUERY'')),
      sf_create = (\<lambda>tr obj r.
         if obj = ''Account''
           then (if js_get r ''Name'' = Some ''Globex''
                 then Inr \<lparr>sr_success = True, sr_id = ''001N'', sr_errors = Some []\<rparr>
                 else Inr \<lparr>sr_success = False, sr_id = [], sr_errors = Some [''DUPLICATE'']\<rparr>)
         else if js_get r ''LastName'' = Some ''Boom'' then Inl (Error ''socket hang up'')
         else if js_get r ''LastName'' = Some ''Unknown''
           then Inr \<lparr>sr_success = False, sr_id = [],
                     sr_errors = Some [''INVALID_FIELD'', ''TOO_LONG'']\<rparr>
         else Inr \<lparr>sr_success = True, sr_id = ''003C'', sr_errors = Some []\<rparr>),
      fs_unlink = (\<lambda>tr p. None),
      fs_write = (\<lambda>tr p. None),
      clock_iso = (\<lambda>tr. ''2024-01-02T03:04:05.678Z''),
      path_join = (\<lambda>dir file. dir @ ''/'' @ file),
      string_trim = ascii_trim\<rparr>"

text \<open>The same world on a file system that refuses to remove the upload.\<close>

definition readonly_world :: "string world" where
  "readonly_world = demo_world\<lparr>fs_unlink := (\<lambda>tr p. Some (Error ''EPERM''))\<rparr>"

text \<open>What the import of the three rows returns in that world.\<close>

definition demo_import_result :: import_result where
  "demo_import_result =
     \<lparr>totalProcessed = 3, successful = 1, failed = 2,
      successfulRecords = [\<lparr>se_id = ''003C'', se_name = ''Ann Lee''\<rparr>],
      errors =
        [\<lparr>ee_record = [(''FirstName'', ''Bob''), (''LastName'', ''Boom'')],
          ee_error = ''socket hang up''\<rparr>,
         \<lparr>ee_record = [(''LastName'', ''Unknown''), (''FirstName'', ''Cy''), (''Score__c'', [])],
          ee_error = ''INVALID_FIELD, TOO_LONG''\<rparr>]\<rparr>"

text \<open>The trace of that import up to the exception raised for the second row.\<close>

definition demo_trace_at_raise :: "string trace" where
  "demo_trace_at_raise =
     [EvParse ''up.csv'',
      EvQuery (account_query ''Acme''),
      EvCreate ''Contact'' [(''LastName'', ''Lee''), (''FirstName'', ''Ann''), (''AccountId'', ''001A'')],
      EvCreate ''Contact'' [(''LastName'', ''Boom''), (''FirstName'', ''Bob'')]]"

text \<open>A row naming an account.\<close>

definition row_of_account :: "string \<Rightarrow> csv_row" where
  "row_of_account name = [(''LastName'', ''Lee''), (''AccountName'', name)]"

text \<open>A row with empty cells, a custom column and a column that is not imported.\<close>

definition demo_sparse_row :: csv_row where
  "demo_sparse_row =
     [(''FirstName'', ''''), (''MailingCity'', ''''), (''Phone'', ''555''), (''Score__c'', ''''),
      (''Nick'', ''C'')]"

section \<open>services/csvReport.js: generateCsvReport\<close>

text \<open>
  The function answers with one of two objects: \<^verbatim>\<open>{success: false, error, query}\<close>
  when the query has no rows, and \<^verbatim>\<open>{success: true, filename, filePath, recordCount,
  fields, query}\<close> after the file has been written.
\<close>

record report_descriptor =
  rd_filename :: string
  rd_filePath :: string
  rd_recordCount :: nat
  rd_fields :: "string list"
  rd_query :: string

datatype report_result =
    NoRecords (rr_error: string) (rr_query: string)
  | Report report_descriptor

definition report_success :: "report_result \<Rightarrow> bool" where
  "report_success res = (case res of NoRecords msg q \<Rightarrow> False | Report d \<Rightarrow> True)"

text \<open>
  \<^verbatim>\<open>toISOString().replace(/[:.]/g, '-')\<close> and \<^verbatim>\<open>reportName.replace(/[^a-z0-9]/gi, '_')\<close>.
\<close>

definition report_timestamp :: "string \<Rightarrow> string" where
  "report_timestamp isoString = map (\<lambda>c. if c = CHR '':'' \<or> c = CHR ''.'' then CHR ''-'' else c) isoString"

definition alphanumeric :: "char \<Rightarrow> bool" where
  "alphanumeric c \<longleftrightarrow>
     (let n = (of_char c :: nat)
      in (97 \<le> n \<and> n \<le> 122) \<or> (65 \<le> n \<and> n \<le> 90) \<or> (48 \<le> n \<and> n \<le> 57))"

definition sanitize_name :: "string \<Rightarrow> string" where
  "sanitize_name reportName = map (\<lambda>c. if alphanumeric c then c else CHR ''_'') reportName"

text \<open>
  The column list \<^verbatim>\<open>fields\<close>, lines 38 and 39, and the rows handed to the writer, lines
  42 to 48:
  each row has the columns of the first record, with \<open>None\<close> where a record has no such
  property.
\<close>

definition report_fields :: "'v jsobj \<Rightarrow> string list" where
  "report_fields first_record = filter (\<lambda>field. field \<noteq> ''attributes'') (js_keys first_record)"

definition report_rows :: "string list \<Rightarrow> 'v jsobj list \<Rightarrow> (string \<times> 'v option) list list" where
  "report_rows fieldNames recs = map (\<lambda>record. map (\<lambda>field. (field, js_get record field)) fieldNames) recs"

definition generateCsvReport ::
  "'v world \<Rightarrow> 'v trace \<Rightarrow> string \<Rightarrow> string \<Rightarrow> string
     \<Rightarrow> (js_error + report_result) \<times> 'v trace" where
  "generateCsvReport w tr soql reportName dir =
     (let tr1 = tr @ [EvQuery soql]
      in case sf_query w tr soql of
           Inl e \<Rightarrow> (Inl e, tr1)
         | Inr queryResult \<Rightarrow>
             (case records queryResult of
                None \<Rightarrow> (Inr (NoRecords ''No records found for the specified query'' soql), tr1)
              | Some [] \<Rightarrow> (Inr (NoRecords ''No records found for the specified query'' soql), tr1)
              | Some (r # rs) \<Rightarrow>
                  (let timestamp = report_timestamp (clock_iso w tr1);
                       filename = sanitize_name reportName @ ''_'' @ timestamp @ ''.csv'';
                       filePath = path_join w dir filename;
                       fieldNames = report_fields r;
                       csvData = report_rows fieldNames (r # rs);
                       tr2 = tr1 @ [EvWrite filePath fieldNames csvData]
                   in case fs_write w tr1 filePath of
                        Some e \<Rightarrow> (Inl e, tr2)
                      | None \<Rightarrow>
                          (Inr (Report \<lparr>rd_filename = filename, rd_filePath = filePath,
                                        rd_recordCount = length (r # rs), rd_fields = fieldNames,
                                        rd_query = soql\<rparr>), tr2))))"

section \<open>middleware/auth.js: rateLimiter\<close>

text \<open>
  \<^verbatim>\<open>requestCounts\<close> is a plain object used as a dictionary from caller keys to
  counters.  Its own properties are the map below.  Reading \<^verbatim>\<open>requestCounts[apiKey]\<close>
  also finds what the object inherits from \<^verbatim>\<open>Object.prototype\<close>: for these twelve
  names the read gives a function (for \<^verbatim>\<open>__proto__\<close> the prototype object itself),
  which is truthy and has neither a \<^verbatim>\<open>count\<close> nor a \<^verbatim>\<open>resetTime\<close>.
\<close>

record rl_entry =
  count :: int
  resetTime :: int

type_synonym request_counts = "string \<rightharpoonup> rl_entry"

definition object_prototype_names :: "string list" where
  "object_prototype_names =
     [''constructor'', ''__defineGetter__'', ''__defineSetter__'', ''hasOwnProperty'',
      ''__lookupGetter__'', ''__lookupSetter__'', ''isPrototypeOf'', ''propertyIsEnumerable'',
      ''toString'', ''valueOf'', ''__proto__'', ''toLocaleString'']"

datatype rc_slot = Absent | Own rl_entry | Inherited

definition rc_get :: "request_counts \<Rightarrow> string \<Rightarrow> rc_slot" where
  "rc_get requestCounts apiKey =
     (case requestCounts apiKey of
        Some entry \<Rightarrow> Own entry
      | None \<Rightarrow> if apiKey \<in> set object_prototype_names then Inherited else Absent)"

text \<open>
  The two constants.  The maximum is 5 (the comment beside it in the source reads
  \<^verbatim>\<open>10 requests per minute\<close>).
\<close>

definition RATE_LIMIT_WINDOW_MS :: int where
  "RATE_LIMIT_WINDOW_MS = 60 * 1000"

definition RATE_LIMIT_MAX_REQUESTS :: int where
  "RATE_LIMIT_MAX_REQUESTS = 5"

text \<open>
  \<^verbatim>\<open>Math.ceil(x / 1000)\<close> for an integer \<open>x\<close>.  Header values are JavaScript numbers:
  arithmetic on the missing \<^verbatim>\<open>count\<close> and \<^verbatim>\<open>resetTime\<close> of an inherited property
  gives \<^verbatim>\<open>NaN\<close>.
\<close>

definition ceil_div_1000 :: "int \<Rightarrow> int" where
  "ceil_div_1000 x = - ((- x) div 1000)"

datatype jsnum = Num int | NaN

record rl_headers =
  x_ratelimit_limit :: jsnum
  x_ratelimit_remaining :: jsnum
  x_ratelimit_reset :: jsnum

datatype rl_response =
    Next rl_headers
  | Status429 (retryAfter: int)
  | Throws js_error

record request =
  x_api_key :: "string option"
  ip :: string

text \<open>\<^verbatim>\<open>req.headers['x-api-key'] || req.ip\<close>\<close>

definition caller_key :: "request \<Rightarrow> string" where
  "caller_key req =
     (case x_api_key req of
        None \<Rightarrow> ip req
      | Some k \<Rightarrow> if k \<noteq> [] then k else ip req)"

text \<open>
  One call of the middleware at the clock reading \<open>now\<close> (milliseconds).  \<open>Next\<close> is the
  call of \<^verbatim>\<open>next()\<close> after the three headers have been set; \<open>Status429\<close> is the JSON
  answer with status 429.  With an inherited property nothing is initialised, the
  comparisons with \<^verbatim>\<open>undefined\<close> are false, and the increment stores \<^verbatim>\<open>NaN\<close> on the
  inherited object, outside the own properties.
\<close>

definition rateLimiter :: "request \<Rightarrow> int \<Rightarrow> request_counts \<Rightarrow> rl_response \<times> request_counts" where
  "rateLimiter req now requestCounts =
     (let apiKey = caller_key req;
          fresh = \<lparr>count = 0, resetTime = now + RATE_LIMIT_WINDOW_MS\<rparr>;
          rc1 = (case rc_get requestCounts apiKey of
                   Absent \<Rightarrow> requestCounts(apiKey \<mapsto> fresh)
                 | Own entry \<Rightarrow>
                     if resetTime entry < now then requestCounts(apiKey \<mapsto> fresh)
                     else requestCounts
                 | Inherited \<Rightarrow> requestCounts)
      in case rc_get rc1 apiKey of
           Absent \<Rightarrow>
             (Throws (Error ''Cannot read properties of undefined (reading 'count')''), rc1)
         | Own entry \<Rightarrow>
             if count entry \<ge> RATE_LIMIT_MAX_REQUESTS
             then (Status429 (ceil_div_1000 (resetTime entry - now)), rc1)
             else
               (let entry1 = entry\<lparr>count := count entry + 1\<rparr>
                in (Next \<lparr>x_ratelimit_limit = Num RATE_LIMIT_MAX_REQUESTS,
                          x_ratelimit_remaining = Num (RATE_LIMIT_MAX_REQUESTS - count entry1),
                          x_ratelimit_reset = Num (ceil_div_1000 (resetTime entry1))\<rparr>,
                    rc1(apiKey \<mapsto> entry1)))
         | Inherited \<Rightarrow>
             (Next \<lparr>x_ratelimit_limit = Num RATE_LIMIT_MAX_REQUESTS,
                    x_ratelimit_remaining = NaN,
                    x_ratelimit_reset = NaN\<rparr>, rc1))"

text \<open>A sequence of calls by one caller, at the given clock readings.\<close>

primrec rl_run :: "request \<Rightarrow> int list \<Rightarrow> request_counts \<Rightarrow> rl_response list \<times> request_counts" where
  "rl_run req [] requestCounts = ([], requestCounts)"
| "rl_run req (now # later) requestCounts =
     (let (res, rc1) = rateLimiter req now requestCounts;
          (ress, rc2) = rl_run req later rc1
      in (res # ress, rc2))"

section \<open>Properties of the object model\<close>

lemma js_get_js_set: "js_get (js_set obj k v) k' = (if k' = k then Some v else js_get obj k')"
  by (induction obj) (auto simp: js_get_def)

lemma js_get_js_delete: "js_get (js_delete obj k) k' = (if k' = k then None else js_get obj k')"
  by (induction obj) (auto simp: js_get_def js_delete_def)

lemma js_get_copy_if_truthy:
  "js_get (copy_if_truthy csv f r) k =
     (if k = f \<and> truthy (js_get csv f) then js_get csv f else js_get r k)"
  by (auto simp: copy_if_truthy_def truthy_def js_get_js_set split: option.splits)

lemma js_get_fold_copy_if_truthy:
  "js_get (fold (copy_if_truthy csv) fs r) k =
     (if k \<in> set fs \<and> truthy (js_get csv k) then js_get csv k else js_get r k)"
  by (induction fs arbitrary: r) (auto simp: js_get_copy_if_truthy)

lemma js_get_copy_custom:
  "js_get (copy_custom csv key r) k =
     (if k = key \<and> endsWith key ''__c'' \<and> js_get csv key \<noteq> None then js_get csv key
      else js_get r k)"
  by (auto simp: copy_custom_def js_get_js_set split: option.splits)

lemma js_get_fold_copy_custom:
  "js_get (fold (copy_custom csv) ks r) k =
     (if k \<in> set ks \<and> endsWith k ''__c'' \<and> js_get csv k \<noteq> None then js_get csv k
      else js_get r k)"
  by (induction ks arbitrary: r) (auto simp: js_get_copy_custom)

lemma js_get_None_iff: "js_get obj k = None \<longleftrightarrow> k \<notin> set (js_keys obj)"
  by (simp add: js_get_def js_keys_def map_of_eq_None_iff)

lemma mailing_truthy_any: "k \<in> set mailingFields \<Longrightarrow> truthy (js_get csv k) \<Longrightarrow> any_mailing csv"
  unfolding mailingFields_def any_mailing_def by auto

lemma LastName_not_listed:
  "''LastName'' \<notin> set standardFields" "''LastName'' \<notin> set mailingFields"
  "''LastName'' \<noteq> ''AccountName''" "\<not> endsWith ''LastName'' ''__c''"
  by (simp_all add: standardFields_def mailingFields_def endsWith_def)

lemma AccountName_not_listed:
  "''AccountName'' \<notin> set standardFields" "''AccountName'' \<notin> set mailingFields"
  "\<not> endsWith ''AccountName'' ''__c''"
  by (simp_all add: standardFields_def mailingFields_def endsWith_def)

lemma standard_not_custom: "k \<in> set standardFields \<Longrightarrow> \<not> endsWith k ''__c''"
  unfolding standardFields_def by (auto simp: endsWith_def)

lemma mailing_not_custom: "k \<in> set mailingFields \<Longrightarrow> \<not> endsWith k ''__c''"
  unfolding mailingFields_def by (auto simp: endsWith_def)

lemma js_get_r2:
  "js_get (if any_mailing csv then fold (copy_if_truthy csv) mailingFields r1 else r1) k =
     (if k \<in> set mailingFields \<and> truthy (js_get csv k) then js_get csv k else js_get r1 k)"
  using mailing_truthy_any[of k csv] by (simp add: js_get_fold_copy_if_truthy)

lemma js_get_mapContactFields:
  "js_get (mapContactFields csv) k =
     (if endsWith k ''__c'' then js_get csv k
      else if k = ''LastName''
        then Some (case js_get csv ''LastName'' of
                     None \<Rightarrow> ''Unknown''
                   | Some v \<Rightarrow> if v \<noteq> [] then v else ''Unknown'')
      else if k \<in> set standardFields \<union> set mailingFields \<union> {''AccountName''}
        then (if truthy (js_get csv k) then js_get csv k else None)
      else None)"
proof -
  define r0 where "r0 = [(''LastName'',
                 (case js_get csv ''LastName'' of
                    None \<Rightarrow> ''Unknown''
                  | Some v \<Rightarrow> if v \<noteq> [] then v else ''Unknown''))]"
  define r1 where "r1 = fold (copy_if_truthy csv) standardFields r0"
  define r2 where "r2 = (if any_mailing csv then fold (copy_if_truthy csv) mailingFields r1 else r1)"
  define r3 where "r3 = copy_if_truthy csv ''AccountName'' r2"
  have m: "mapContactFields csv = fold (copy_custom csv) (js_keys csv) r3"
    unfolding mapContactFields_def Let_def r3_def r2_def r1_def r0_def ..
  have g0: "js_get r0 k = (if k = ''LastName'' then Some (case js_get csv ''LastName'' of
                     None \<Rightarrow> ''Unknown''
                   | Some v \<Rightarrow> if v \<noteq> [] then v else ''Unknown'') else None)"
    unfolding r0_def js_get_def by simp
  have g1: "js_get r1 k = (if k \<in> set standardFields \<and> truthy (js_get csv k) then js_get csv k else js_get r0 k)"
    unfolding r1_def by (rule js_get_fold_copy_if_truthy)
  have g2: "js_get r2 k = (if k \<in> set mailingFields \<and> truthy (js_get csv k) then js_get csv k else js_get r1 k)"
    unfolding r2_def by (rule js_get_r2)
  have g3: "js_get r3 k = (if k = ''AccountName'' \<and> truthy (js_get csv ''AccountName'') then js_get csv ''AccountName'' else js_get r2 k)"
    unfolding r3_def by (rule js_get_copy_if_truthy)
  have g4: "js_get (mapContactFields csv) k =
      (if endsWith k ''__c'' \<and> js_get csv k \<noteq> None then js_get csv k else js_get r3 k)"
    unfolding m js_get_fold_copy_custom using js_get_None_iff[of csv k] by auto
  note chain = g4[unfolded g3 g2 g1 g0]
  show ?thesis
  proof (cases "endsWith k ''__c''")
    case True
    then have "k \<notin> set standardFields" "k \<notin> set mailingFields"
      "k \<noteq> ''LastName''" "k \<noteq> ''AccountName''"
      using standard_not_custom mailing_not_custom LastName_not_listed(4)
        AccountName_not_listed(3) by blast+
    then show ?thesis unfolding chain using True by simp
  next
    case nc: False
    show ?thesis
    proof (cases "k = ''LastName''")
      case True
      have "k \<notin> set standardFields" "k \<notin> set mailingFields" "k \<noteq> ''AccountName''"
        unfolding True by (rule LastName_not_listed)+
      then show ?thesis unfolding chain using nc True by simp
    next
      case nl: False
      show ?thesis
      proof (cases "k = ''AccountName''")
        case True
        have "k \<notin> set standardFields" "k \<notin> set mailingFields"
          unfolding True by (rule AccountName_not_listed)+
        then show ?thesis unfolding chain using nc nl True by simp
      next
        case False
        then show ?thesis unfolding chain using nc nl by simp
      qed
    qed
  qed
qed

section \<open>Properties of the import loop\<close>

lemma import_loop_append:
  "import_loop w st (xs @ ys) = import_loop w (import_loop w st xs) ys"
  by (induction xs arbitrary: st) simp_all

lemma findOrCreateAccount_trace:
  "\<exists>evs. snd (findOrCreateAccount w tr n) = tr @ evs \<and> list_all account_event evs"
  unfolding findOrCreateAccount_def Let_def
  by (auto simp: account_event_def split: sum.splits option.splits list.splits)

lemma resolveContact_trace:
  "\<exists>evs. snd (resolveContact w tr c) = tr @ evs \<and> list_all account_event evs"
proof (cases "truthy (js_get (mapContactFields c) ''AccountName'')")
  case False
  then have "snd (resolveContact w tr c) = tr @ []"
    by (auto simp: resolveContact_def truthy_def split: option.splits)
  then show ?thesis by (intro exI[of _ "[]"]) simp
next
  case True
  then obtain n where n: "js_get (mapContactFields c) ''AccountName'' = Some n" "n \<noteq> []"
    by (auto simp: truthy_def split: option.splits)
  have "snd (resolveContact w tr c) = snd (findOrCreateAccount w tr n)"
    using n by (simp add: resolveContact_def Let_def split: prod.splits)
  then show ?thesis using findOrCreateAccount_trace by metis
qed

lemma process_contact_trace:
  "\<exists>evs. ls_trace (process_contact w st c) =
           ls_trace st @ evs @ [EvCreate ''Contact'' (fst (resolveContact w (ls_trace st) c))]
         \<and> list_all account_event evs"
proof -
  obtain evs where evs: "snd (resolveContact w (ls_trace st) c) = ls_trace st @ evs"
    "list_all account_event evs"
    using resolveContact_trace by blast
  have "ls_trace (process_contact w st c) =
          snd (resolveContact w (ls_trace st) c) @
            [EvCreate ''Contact'' (fst (resolveContact w (ls_trace st) c))]"
    by (simp add: process_contact_def try_contact_def Let_def
        split: prod.splits sum.splits option.splits)
  then show ?thesis using evs by auto
qed

lemma process_contact_counts:
  "length (ls_successfulRecords (process_contact w st c)) + length (ls_errors (process_contact w st c))
     = Suc (length (ls_successfulRecords st) + length (ls_errors st))"
  by (simp add: process_contact_def try_contact_def Let_def
      split: prod.splits sum.splits option.splits)

lemma import_loop_counts:
  "length (ls_successfulRecords (import_loop w st cs)) + length (ls_errors (import_loop w st cs))
     = length (ls_successfulRecords st) + length (ls_errors st) + length cs"
  by (induction cs arbitrary: st) (simp_all add: process_contact_counts)

lemma account_event_filters:
  "list_all account_event evs \<Longrightarrow>
     filter is_unlink evs = [] \<and> filter is_contact_create evs = [] \<and> filter is_write evs = []"
  by (induction evs)
     (auto simp: account_event_def is_unlink_def is_contact_create_def is_write_def
           split: event.splits)

lemma new_events_append [simp]: "new_events tr (tr @ evs) = evs"
  by (simp add: new_events_def)

lemma process_contact_events:
  "\<exists>evs. ls_trace (process_contact w st c) = ls_trace st @ evs
         \<and> filter is_unlink evs = []
         \<and> filter is_contact_create evs =
             [EvCreate ''Contact'' (fst (resolveContact w (ls_trace st) c))]"
proof -
  obtain evs where evs: "ls_trace (process_contact w st c) =
      ls_trace st @ evs @ [EvCreate ''Contact'' (fst (resolveContact w (ls_trace st) c))]"
    "list_all account_event evs"
    using process_contact_trace by blast
  let ?new = "evs @ [EvCreate ''Contact'' (fst (resolveContact w (ls_trace st) c))]"
  have "filter is_unlink ?new = []"
    using account_event_filters[OF evs(2)] by (simp add: is_unlink_def)
  moreover have "filter is_contact_create ?new =
      [EvCreate ''Contact'' (fst (resolveContact w (ls_trace st) c))]"
    using account_event_filters[OF evs(2)] by (simp add: is_contact_create_def)
  ultimately show ?thesis using evs(1) by (intro exI[of _ ?new]) simp
qed

lemma import_loop_events:
  "\<exists>evs. ls_trace (import_loop w st cs) = ls_trace st @ evs
         \<and> filter is_unlink evs = []
         \<and> length (filter is_contact_create evs) = length cs"
proof (induction cs arbitrary: st)
  case Nil
  show ?case by (intro exI[of _ "[]"]) simp
next
  case (Cons c cs)
  obtain e1 where e1: "ls_trace (process_contact w st c) = ls_trace st @ e1"
    "filter is_unlink e1 = []" "length (filter is_contact_create e1) = 1"
    using process_contact_events[of w st c] by auto
  obtain e2 where e2:
    "ls_trace (import_loop w (process_contact w st c) cs) = ls_trace (process_contact w st c) @ e2"
    "filter is_unlink e2 = []" "length (filter is_contact_create e2) = length cs"
    using Cons.IH[of "process_contact w st c"] by auto
  show ?case
    using e1 e2 by (intro exI[of _ "e1 @ e2"]) simp
qed

lemma import_loop_errors_prefix:
  "\<exists>later. ls_errors (import_loop w st cs) = ls_errors st @ later"
proof (induction cs arbitrary: st)
  case Nil
  show ?case by simp
next
  case (Cons c cs)
  have "\<exists>l. ls_errors (process_contact w st c) = ls_errors st @ l"
    by (simp add: process_contact_def try_contact_def Let_def
        split: prod.splits sum.splits option.splits)
  then show ?case using Cons.IH[of "process_contact w st c"] by auto
qed

lemma importContactsFromCSV_parsed:
  assumes "parse_csv w tr filePath = Rows contacts"
  shows "importContactsFromCSV w tr filePath =
     (let st = import_loop w (initial_state (tr @ [EvParse filePath])) contacts
      in (case fs_unlink w (ls_trace st) filePath of
            Some e \<Rightarrow> Thrown e
          | None \<Rightarrow> Returned \<lparr>totalProcessed = length contacts,
                           successful = length (ls_successfulRecords st),
                           failed = length (ls_errors st),
                           successfulRecords = ls_successfulRecords st,
                           errors = ls_errors st\<rparr>,
          ls_trace st @ [EvUnlink filePath]))"
  using assms by (simp add: importContactsFromCSV_def Let_def split: option.splits)

lemma importContactsFromCSV_parse_error:
  assumes "parse_csv w tr filePath = ParserError e"
  shows "importContactsFromCSV w tr filePath = (Thrown e, tr @ [EvParse filePath])"
  using assms by (simp add: importContactsFromCSV_def Let_def)

text \<open>
  After an error of the reading stream the call neither returns nor throws, and the
  upload is not removed.
\<close>

lemma importContactsFromCSV_reader_error:
  assumes "parse_csv w tr filePath = ReaderError e"
  shows "importContactsFromCSV w tr filePath = (NeverSettles, tr @ [EvParse filePath])"
  using assms by (simp add: importContactsFromCSV_def Let_def)

lemma missing_file_never_settles:
  "importContactsFromCSV demo_world [] ''nope.csv'' = (NeverSettles, [EvParse ''nope.csv''])"
  by code_simp

lemma initial_state_simps [simp]:
  "ls_trace (initial_state tr) = tr" "ls_errors (initial_state tr) = []"
  "ls_successfulRecords (initial_state tr) = []" "ls_results (initial_state tr) = []"
  by (simp_all add: initial_state_def)

lemma demo_import_run:
  "fst (importContactsFromCSV demo_world [] ''up.csv'') = Returned demo_import_result"
  by code_simp

text \<open>
  The entry one iteration appends on each failure path: after an exception the row as
  parsed, after a reported failure the record that was submitted.
\<close>

lemma raised_entry:
  assumes "try_contact w st contact = Inl (e, tr')"
  shows "ls_errors (process_contact w st contact) =
           ls_errors st @ [\<lparr>ee_record = contact, ee_error = message e\<rparr>]"
  using assms by (simp add: process_contact_def)

lemma reported_failure_entry:
  assumes "sf_create w (snd (resolveContact w (ls_trace st) contact)) ''Contact''
             (fst (resolveContact w (ls_trace st) contact)) = Inr result"
    and "\<not> sr_success result" "sr_errors result = Some es"
  shows "ls_errors (process_contact w st contact) =
           ls_errors st @ [\<lparr>ee_record = fst (resolveContact w (ls_trace st) contact),
                             ee_error = js_join '', '' es\<rparr>]"
proof -
  obtain r tr1 where r: "resolveContact w (ls_trace st) contact = (r, tr1)"
    by (cases "resolveContact w (ls_trace st) contact")
  show ?thesis
    using assms unfolding r by (simp add: process_contact_def try_contact_def r)
qed

section \<open>Properties of the account resolution\<close>

lemma AccountId_not_listed:
  "''AccountId'' \<notin> set standardFields" "''AccountId'' \<notin> set mailingFields"
  "''AccountId'' \<noteq> ''LastName''" "''AccountId'' \<noteq> ''AccountName''"
  "\<not> endsWith ''AccountId'' ''__c''"
  by (simp_all add: standardFields_def mailingFields_def endsWith_def)

lemma js_get_mapped_AccountId: "js_get (mapContactFields c) ''AccountId'' = None"
  unfolding js_get_mapContactFields[of c "''AccountId''"]
  using AccountId_not_listed by simp

lemma js_get_mapped_AccountName:
  "js_get (mapContactFields c) ''AccountName'' =
     (if truthy (js_get c ''AccountName'') then js_get c ''AccountName'' else None)"
  unfolding js_get_mapContactFields[of c "''AccountName''"]
  using AccountName_not_listed(3) by simp

lemma resolveContact_unnamed:
  assumes "\<not> truthy (js_get contact ''AccountName'')"
  shows "resolveContact w tr contact = (mapContactFields contact, tr)"
  using assms by (simp add: resolveContact_def js_get_mapped_AccountName)

lemma resolveContact_named:
  assumes "js_get contact ''AccountName'' = Some name" "name \<noteq> []"
  shows "resolveContact w tr contact =
     (js_delete (case fst (findOrCreateAccount w tr name) of
                   None \<Rightarrow> mapContactFields contact
                 | Some i \<Rightarrow>
                     if i \<noteq> [] then js_set (mapContactFields contact) ''AccountId'' i
                     else mapContactFields contact) ''AccountName'',
      snd (findOrCreateAccount w tr name))"
proof -
  have "js_get (mapContactFields contact) ''AccountName'' = Some name"
    using assms by (simp add: js_get_mapped_AccountName truthy_def)
  then show ?thesis using assms(2)
    by (simp add: resolveContact_def Let_def split: prod.splits)
qed

lemma resolveContact_AccountName: "js_get (fst (resolveContact w tr contact)) ''AccountName'' = None"
proof (cases "truthy (js_get contact ''AccountName'')")
  case False
  then show ?thesis
    by (simp add: resolveContact_unnamed js_get_mapped_AccountName)
next
  case True
  then obtain name where "js_get contact ''AccountName'' = Some name" "name \<noteq> []"
    by (auto simp: truthy_def split: option.splits)
  then show ?thesis by (simp add: resolveContact_named js_get_js_delete)
qed

lemma resolveContact_AccountId:
  assumes "js_get contact ''AccountName'' = Some name" "name \<noteq> []"
  shows "js_get (fst (resolveContact w tr contact)) ''AccountId'' =
     (if truthy (fst (findOrCreateAccount w tr name)) then fst (findOrCreateAccount w tr name)
      else None)"
  unfolding resolveContact_named[OF assms]
  using AccountId_not_listed(4)
  by (auto simp: js_get_js_delete js_get_js_set js_get_mapped_AccountId truthy_def
           split: option.splits)

lemma findOrCreateAccount_found:
  assumes "sf_query w tr (account_query name) = Inr result" "records result = Some (r # rs)"
  shows "fst (findOrCreateAccount w tr name) = js_get r ''Id''"
  using assms by (simp add: findOrCreateAccount_def Let_def)

lemma findOrCreateAccount_created:
  assumes "sf_query w tr (account_query name) = Inr result" "records result \<in> {None, Some []}"
    and "sf_create w (tr @ [EvQuery (account_query name)]) ''Account'' [(''Name'', name)] = Inr cr"
  shows "fst (findOrCreateAccount w tr name) = (if sr_success cr then Some (sr_id cr) else None)"
  using assms by (auto simp: findOrCreateAccount_def Let_def)

lemma findOrCreateAccount_failed:
  assumes "sf_query w tr (account_query name) = Inl e
     \<or> (sf_query w tr (account_query name) = Inr result \<and> records result \<in> {None, Some []}
        \<and> sf_create w (tr @ [EvQuery (account_query name)]) ''Account'' [(''Name'', name)] = Inl e)"
  shows "fst (findOrCreateAccount w tr name) = None"
  using assms by (auto simp: findOrCreateAccount_def Let_def)

lemma process_contact_last:
  "last (ls_trace (process_contact w st contact)) =
     EvCreate ''Contact'' (fst (resolveContact w (ls_trace st) contact))"
  using process_contact_trace[of w st contact] by auto

section \<open>Properties of the report and of the rate limiter\<close>

lemma js_keys_distinct: "distinct (map fst obj) \<Longrightarrow> js_keys obj = map fst obj"
  by (simp add: js_keys_def)

lemma set_js_keys: "set (js_keys obj) = fst ` set obj"
  by (simp add: js_keys_def)

lemma ceil_div_1000_bounds:
  assumes "0 \<le> d" "d \<le> RATE_LIMIT_WINDOW_MS"
  shows "0 \<le> ceil_div_1000 d \<and> ceil_div_1000 d \<le> 60"
proof -
  have "(- d) div 1000 \<le> 0 div 1000"
    using assms(1) by (intro zdiv_mono1) simp_all
  moreover have "(- 60000) div 1000 \<le> (- d) div (1000 :: int)"
    using assms(2) unfolding RATE_LIMIT_WINDOW_MS_def by (intro zdiv_mono1) simp_all
  ultimately show ?thesis unfolding ceil_div_1000_def by simp
qed

lemma rateLimiter_opens_window:
  assumes "caller_key req \<notin> set object_prototype_names"
    and "requestCounts (caller_key req) = None
         \<or> (\<exists>entry. requestCounts (caller_key req) = Some entry \<and> resetTime entry < now)"
  shows "rateLimiter req now requestCounts =
     (Next \<lparr>x_ratelimit_limit = Num 5, x_ratelimit_remaining = Num 4,
            x_ratelimit_reset = Num (ceil_div_1000 (now + RATE_LIMIT_WINDOW_MS))\<rparr>,
      requestCounts(caller_key req \<mapsto> \<lparr>count = 1, resetTime = now + RATE_LIMIT_WINDOW_MS\<rparr>))"
  using assms
  by (auto simp: rateLimiter_def rc_get_def Let_def RATE_LIMIT_MAX_REQUESTS_def)

lemma rateLimiter_counts:
  assumes "requestCounts (caller_key req) = Some entry" "now \<le> resetTime entry"
    and "count entry < RATE_LIMIT_MAX_REQUESTS"
  shows "rateLimiter req now requestCounts =
     (Next \<lparr>x_ratelimit_limit = Num 5,
            x_ratelimit_remaining = Num (5 - (count entry + 1)),
            x_ratelimit_reset = Num (ceil_div_1000 (resetTime entry))\<rparr>,
      requestCounts(caller_key req \<mapsto> entry\<lparr>count := count entry + 1\<rparr>))"
  using assms
  by (auto simp: rateLimiter_def rc_get_def Let_def RATE_LIMIT_MAX_REQUESTS_def)

lemma rateLimiter_rejects:
  assumes "requestCounts (caller_key req) = Some entry" "now \<le> resetTime entry"
    and "RATE_LIMIT_MAX_REQUESTS \<le> count entry"
  shows "rateLimiter req now requestCounts =
     (Status429 (ceil_div_1000 (resetTime entry - now)), requestCounts)"
  using assms
  by (auto simp: rateLimiter_def rc_get_def Let_def)

lemma rateLimiter_inherited:
  assumes "caller_key req \<in> set object_prototype_names" "requestCounts (caller_key req) = None"
  shows "rateLimiter req now requestCounts =
     (Next \<lparr>x_ratelimit_limit = Num 5, x_ratelimit_remaining = NaN, x_ratelimit_reset = NaN\<rparr>,
      requestCounts)"
  using assms
  by (simp add: rateLimiter_def rc_get_def Let_def RATE_LIMIT_MAX_REQUESTS_def)

lemma rl_run_inherited:
  assumes "caller_key req \<in> set object_prototype_names" "requestCounts (caller_key req) = None"
  shows "rl_run req ts requestCounts =
     (replicate (length ts)
        (Next \<lparr>x_ratelimit_limit = Num 5, x_ratelimit_remaining = NaN, x_ratelimit_reset = NaN\<rparr>),
      requestCounts)"
  using assms by (induction ts) (simp_all add: rateLimiter_inherited)


lemma rl_run_Cons:
  "rl_run req (now # later) requestCounts =
     (fst (rateLimiter req now requestCounts)
        # fst (rl_run req later (snd (rateLimiter req now requestCounts))),
      snd (rl_run req later (snd (rateLimiter req now requestCounts))))"
  by (simp add: Let_def split: prod.splits)

text \<open>
  One window of a caller whose key is not a name inherited from \<^verbatim>\<open>Object.prototype\<close>:
  the first request opens the window, five requests pass with the remaining allowance
  counting down to zero, the sixth request inside the window is answered 429 with a
  \<^verbatim>\<open>retryAfter\<close> between 0 and 60 seconds, and the first request after the reset time
  finds the counter at zero again and passes.
\<close>

lemma window_sequence_ordinary_key:
  assumes key: "caller_key req \<notin> set object_prototype_names"
    and fresh: "requestCounts (caller_key req) = None
         \<or> (\<exists>entry. requestCounts (caller_key req) = Some entry \<and> resetTime entry < t1)"
    and order: "t1 \<le> t2" "t2 \<le> t3" "t3 \<le> t4" "t4 \<le> t5" "t5 \<le> t6"
      "t6 \<le> t1 + RATE_LIMIT_WINDOW_MS"
    and later: "t1 + RATE_LIMIT_WINDOW_MS < t7"
  shows "fst (rl_run req [t1, t2, t3, t4, t5, t6, t7] requestCounts) =
      [Next \<lparr>x_ratelimit_limit = Num 5, x_ratelimit_remaining = Num 4,
              x_ratelimit_reset = Num (ceil_div_1000 (t1 + RATE_LIMIT_WINDOW_MS))\<rparr>,
       Next \<lparr>x_ratelimit_limit = Num 5, x_ratelimit_remaining = Num 3,
              x_ratelimit_reset = Num (ceil_div_1000 (t1 + RATE_LIMIT_WINDOW_MS))\<rparr>,
       Next \<lparr>x_ratelimit_limit = Num 5, x_ratelimit_remaining = Num 2,
              x_ratelimit_reset = Num (ceil_div_1000 (t1 + RATE_LIMIT_WINDOW_MS))\<rparr>,
       Next \<lparr>x_ratelimit_limit = Num 5, x_ratelimit_remaining = Num 1,
              x_ratelimit_reset = Num (ceil_div_1000 (t1 + RATE_LIMIT_WINDOW_MS))\<rparr>,
       Next \<lparr>x_ratelimit_limit = Num 5, x_ratelimit_remaining = Num 0,
              x_ratelimit_reset = Num (ceil_div_1000 (t1 + RATE_LIMIT_WINDOW_MS))\<rparr>,
       Status429 (ceil_div_1000 (t1 + RATE_LIMIT_WINDOW_MS - t6)),
       Next \<lparr>x_ratelimit_limit = Num 5, x_ratelimit_remaining = Num 4,
              x_ratelimit_reset = Num (ceil_div_1000 (t7 + RATE_LIMIT_WINDOW_MS))\<rparr>]
     \<and> 0 \<le> ceil_div_1000 (t1 + RATE_LIMIT_WINDOW_MS - t6)
     \<and> ceil_div_1000 (t1 + RATE_LIMIT_WINDOW_MS - t6) \<le> 60
     \<and> snd (rl_run req [t1, t2, t3, t4, t5, t6, t7] requestCounts) (caller_key req)
         = Some \<lparr>count = 1, resetTime = t7 + RATE_LIMIT_WINDOW_MS\<rparr>"
proof -
  define k where "k = caller_key req"
  define W where "W = RATE_LIMIT_WINDOW_MS"
  define rc where "rc n = requestCounts(k \<mapsto> \<lparr>count = n, resetTime = t1 + W\<rparr>)" for n
  have s1: "rateLimiter req t1 requestCounts =
      (Next \<lparr>x_ratelimit_limit = Num 5, x_ratelimit_remaining = Num 4,
              x_ratelimit_reset = Num (ceil_div_1000 (t1 + W))\<rparr>, rc 1)"
    unfolding rc_def k_def W_def
    by (rule rateLimiter_opens_window[where req = req and requestCounts = requestCounts
          and now = t1, OF key fresh])
  have step: "rateLimiter req t (rc n) =
      (Next \<lparr>x_ratelimit_limit = Num 5, x_ratelimit_remaining = Num (5 - (n + 1)),
              x_ratelimit_reset = Num (ceil_div_1000 (t1 + W))\<rparr>, rc (n + 1))"
    if "t \<le> t1 + W" "n < 5" for t n
    using rateLimiter_counts[of "rc n" req "\<lparr>count = n, resetTime = t1 + W\<rparr>" t] that
    by (simp add: rc_def k_def RATE_LIMIT_MAX_REQUESTS_def)
  have s2: "rateLimiter req t2 (rc 1) =
      (Next \<lparr>x_ratelimit_limit = Num 5, x_ratelimit_remaining = Num 3,
              x_ratelimit_reset = Num (ceil_div_1000 (t1 + W))\<rparr>, rc 2)"
    using step[of t2 1] order unfolding W_def by simp
  have s3: "rateLimiter req t3 (rc 2) =
      (Next \<lparr>x_ratelimit_limit = Num 5, x_ratelimit_remaining = Num 2,
              x_ratelimit_reset = Num (ceil_div_1000 (t1 + W))\<rparr>, rc 3)"
    using step[of t3 2] order unfolding W_def by simp
  have s4: "rateLimiter req t4 (rc 3) =
      (Next \<lparr>x_ratelimit_limit = Num 5, x_ratelimit_remaining = Num 1,
              x_ratelimit_reset = Num (ceil_div_1000 (t1 + W))\<rparr>, rc 4)"
    using step[of t4 3] order unfolding W_def by simp
  have s5: "rateLimiter req t5 (rc 4) =
      (Next \<lparr>x_ratelimit_limit = Num 5, x_ratelimit_remaining = Num 0,
              x_ratelimit_reset = Num (ceil_div_1000 (t1 + W))\<rparr>, rc 5)"
    using step[of t5 4] order unfolding W_def by simp
  have s6: "rateLimiter req t6 (rc 5) = (Status429 (ceil_div_1000 (t1 + W - t6)), rc 5)"
    using rateLimiter_rejects[of "rc 5" req "\<lparr>count = 5, resetTime = t1 + W\<rparr>" t6] order
    by (simp add: rc_def k_def W_def RATE_LIMIT_MAX_REQUESTS_def)
  have s7: "rateLimiter req t7 (rc 5) =
      (Next \<lparr>x_ratelimit_limit = Num 5, x_ratelimit_remaining = Num 4,
              x_ratelimit_reset = Num (ceil_div_1000 (t7 + W))\<rparr>,
       (rc 5)(k \<mapsto> \<lparr>count = 1, resetTime = t7 + W\<rparr>))"
    unfolding k_def W_def
    by (rule rateLimiter_opens_window[where req = req and requestCounts = "rc 5"
          and now = t7, OF key])
       (use later in \<open>simp add: rc_def k_def W_def\<close>)
  have bound: "0 \<le> ceil_div_1000 (t1 + W - t6) \<and> ceil_div_1000 (t1 + W - t6) \<le> 60"
    using order unfolding W_def by (intro ceil_div_1000_bounds) simp_all
  have run: "rl_run req [t1, t2, t3, t4, t5, t6, t7] requestCounts =
      ([fst (rateLimiter req t1 requestCounts), fst (rateLimiter req t2 (rc 1)),
        fst (rateLimiter req t3 (rc 2)), fst (rateLimiter req t4 (rc 3)),
        fst (rateLimiter req t5 (rc 4)), fst (rateLimiter req t6 (rc 5)),
        fst (rateLimiter req t7 (rc 5))],
       snd (rateLimiter req t7 (rc 5)))"
    unfolding rl_run_Cons rl_run.simps(1) s1 s2 s3 s4 s5 s6 fst_conv snd_conv ..
  show ?thesis
    unfolding run s1 s2 s3 s4 s5 s6 s7 fst_conv snd_conv
    using bound unfolding W_def k_def by simp
qed

section \<open>Claims about the CSV import\<close>

text \<open>
  Claim C1, as the code has it.  Let the parser deliver the rows \<open>before @ contact # after\<close>, and let the
  inner \<^verbatim>\<open>try\<close> raise \<open>e\<close> on \<open>contact\<close> (mapping never raises; submitting does when
  \<^verbatim>\<open>createRecord\<close> throws or a failure answer has no \<^verbatim>\<open>errors\<close> to join).  Then the
  exception is caught: the loop goes on from the state in which only the entry pairing
  \<open>contact\<close> with the message of \<open>e\<close> has been appended to the errors; that entry is in
  the final errors list, right after the entries of the earlier rows; every later row is
  still submitted (one Contact create call for each).  No row aborts the batch: the call
  returns the aggregate built from the final state when the removal of the upload after
  the loop succeeds, and throws the exception of \<^verbatim>\<open>fs.unlinkSync\<close> when that removal
  raises.
\<close>

theorem row_exception_isolated:
  fixes w :: "string world"
  assumes parse: "parse_csv w tr filePath = Rows (before @ contact # after)"
    and raise: "try_contact w (import_loop w (initial_state (tr @ [EvParse filePath])) before) contact
                  = Inl (e, tr')"
  shows "let st_i = import_loop w (initial_state (tr @ [EvParse filePath])) before;
             st_caught = st_i\<lparr>ls_trace := tr',
                             ls_errors := ls_errors st_i @
                               [\<lparr>ee_record = contact, ee_error = message e\<rparr>]\<rparr>;
             st_end = import_loop w st_caught after
         in import_loop w (initial_state (tr @ [EvParse filePath])) (before @ contact # after) = st_end
          \<and> (\<exists>later. ls_errors st_end =
                 ls_errors st_i @ \<lparr>ee_record = contact, ee_error = message e\<rparr> # later)
          \<and> length (filter is_contact_create (new_events tr' (ls_trace st_end))) = length after
          \<and> fst (importContactsFromCSV w tr filePath) =
              (case fs_unlink w (ls_trace st_end) filePath of
                 Some e' \<Rightarrow> Thrown e'
               | None \<Rightarrow> Returned \<lparr>totalProcessed = length (before @ contact # after),
                                successful = length (ls_successfulRecords st_end),
                                failed = length (ls_errors st_end),
                                successfulRecords = ls_successfulRecords st_end,
                                errors = ls_errors st_end\<rparr>)"
proof -
  define st_i where "st_i = import_loop w (initial_state (tr @ [EvParse filePath])) before"
  define st_caught where "st_caught = st_i\<lparr>ls_trace := tr',
      ls_errors := ls_errors st_i @ [\<lparr>ee_record = contact, ee_error = message e\<rparr>]\<rparr>"
  define st_end where "st_end = import_loop w st_caught after"
  have step: "process_contact w st_i contact = st_caught"
    using raise by (simp add: process_contact_def st_i_def st_caught_def)
  have loop: "import_loop w (initial_state (tr @ [EvParse filePath])) (before @ contact # after)
                = st_end"
    by (simp add: import_loop_append step st_i_def[symmetric] st_end_def)
  obtain later where "ls_errors st_end = ls_errors st_caught @ later"
    unfolding st_end_def using import_loop_errors_prefix by blast
  then have errs: "\<exists>later. ls_errors st_end =
      ls_errors st_i @ \<lparr>ee_record = contact, ee_error = message e\<rparr> # later"
    by (simp add: st_caught_def)
  obtain evs where evs: "ls_trace st_end = ls_trace st_caught @ evs"
    "length (filter is_contact_create evs) = length after"
    unfolding st_end_def using import_loop_events by blast
  have "ls_trace st_caught = tr'" by (simp add: st_caught_def)
  then have creates:
    "length (filter is_contact_create (new_events tr' (ls_trace st_end))) = length after"
    using evs by simp
  have result: "fst (importContactsFromCSV w tr filePath) =
              (case fs_unlink w (ls_trace st_end) filePath of
                 Some e' \<Rightarrow> Thrown e'
               | None \<Rightarrow> Returned \<lparr>totalProcessed = length (before @ contact # after),
                                successful = length (ls_successfulRecords st_end),
                                failed = length (ls_errors st_end),
                                successfulRecords = ls_successfulRecords st_end,
                                errors = ls_errors st_end\<rparr>)"
    unfolding importContactsFromCSV_parsed[OF parse] Let_def loop by simp
  show ?thesis
    unfolding Let_def st_i_def[symmetric] st_caught_def[symmetric] st_end_def[symmetric]
    using loop errs creates result by blast
qed

text \<open>
  The theorem at the three-row upload: the second row's create call raises, the third
  row is still submitted.
\<close>

theorem row_exception_isolated_witness:
  "parse_csv demo_world [] ''up.csv'' = Rows ([demo_rows ! 0] @ demo_rows ! 1 # [demo_rows ! 2])
   \<and> try_contact demo_world
         (import_loop demo_world (initial_state ([] @ [EvParse ''up.csv''])) [demo_rows ! 0])
         (demo_rows ! 1)
       = Inl (Error ''socket hang up'', demo_trace_at_raise)
   \<and> fst (importContactsFromCSV demo_world [] ''up.csv'') = Returned demo_import_result
   \<and> ee_record (errors demo_import_result ! 0) = demo_rows ! 1
   \<and> ee_error (errors demo_import_result ! 0) = ''socket hang up''
   \<and> length (filter is_contact_create
         (new_events demo_trace_at_raise
            (ls_trace (import_loop demo_world (initial_state ([] @ [EvParse ''up.csv'']))
                         ([demo_rows ! 0] @ demo_rows ! 1 # [demo_rows ! 2]))))) = length [demo_rows ! 2]"
proof -
  have parse: "parse_csv demo_world [] ''up.csv''
                 = Rows ([demo_rows ! 0] @ demo_rows ! 1 # [demo_rows ! 2])"
    by (simp add: demo_world_def demo_rows_def)
  have raise: "try_contact demo_world
         (import_loop demo_world (initial_state ([] @ [EvParse ''up.csv''])) [demo_rows ! 0])
         (demo_rows ! 1)
       = Inl (Error ''socket hang up'', demo_trace_at_raise)"
    by code_simp
  note inst = row_exception_isolated[OF parse raise, unfolded Let_def]
  have run: "fst (importContactsFromCSV demo_world [] ''up.csv'') = Returned demo_import_result"
    by (rule demo_import_run)
  have entry: "ee_record (errors demo_import_result ! 0) = demo_rows ! 1"
    "ee_error (errors demo_import_result ! 0) = ''socket hang up''"
    by (simp_all add: demo_import_result_def demo_rows_def)
  have later: "length (filter is_contact_create
         (new_events demo_trace_at_raise
            (ls_trace (import_loop demo_world (initial_state ([] @ [EvParse ''up.csv'']))
                         ([demo_rows ! 0] @ demo_rows ! 1 # [demo_rows ! 2]))))) = length [demo_rows ! 2]"
    unfolding inst[THEN conjunct1]
    by (rule inst[THEN conjunct2, THEN conjunct2, THEN conjunct1])
  show ?thesis using parse raise run entry later by blast
qed

text \<open>
  Claim C1 as stated fails where the removal raises: the second row's create call raises
  and is caught, the third row is still processed, and the caller gets the exception of
  \<^verbatim>\<open>fs.unlinkSync\<close>, not the aggregate.
\<close>

theorem row_exception_without_aggregate_counterexample:
  "parse_csv readonly_world [] ''up.csv'' = Rows ([demo_rows ! 0] @ demo_rows ! 1 # [demo_rows ! 2])
   \<and> try_contact readonly_world
         (import_loop readonly_world (initial_state ([] @ [EvParse ''up.csv''])) [demo_rows ! 0])
         (demo_rows ! 1)
       = Inl (Error ''socket hang up'', demo_trace_at_raise)
   \<and> map ee_record
         (ls_errors (import_loop readonly_world (initial_state ([] @ [EvParse ''up.csv'']))
                       demo_rows))
       = [demo_rows ! 1, mapContactFields (demo_rows ! 2)]
   \<and> fst (importContactsFromCSV readonly_world [] ''up.csv'') = Thrown (Error ''EPERM'')"
  by code_simp

text \<open>
  Claim C2.  Whenever \<open>importContactsFromCSV\<close> returns an aggregate, its total is the sum
  of the two counts, the counts are the lengths of the two lists, and the parsed rows are
  as many as the entries of the two lists together: each iteration of the loop appends
  exactly one entry to exactly one of them (\<open>process_contact_counts\<close>).
\<close>

theorem import_result_invariant:
  assumes "fst (importContactsFromCSV w tr filePath) = Returned agg"
  shows "totalProcessed agg = successful agg + failed agg
       \<and> successful agg = length (successfulRecords agg)
       \<and> failed agg = length (errors agg)
       \<and> (\<exists>contacts. parse_csv w tr filePath = Rows contacts
                     \<and> length contacts = length (successfulRecords agg) + length (errors agg))"
proof (cases "parse_csv w tr filePath")
  case (ParserError e)
  then show ?thesis using assms by (simp add: importContactsFromCSV_parse_error)
next
  case (ReaderError e)
  then show ?thesis using assms by (simp add: importContactsFromCSV_reader_error)
next
  case (Rows contacts)
  define st where "st = import_loop w (initial_state (tr @ [EvParse filePath])) contacts"
  have agg: "agg = \<lparr>totalProcessed = length contacts,
                     successful = length (ls_successfulRecords st),
                     failed = length (ls_errors st),
                     successfulRecords = ls_successfulRecords st,
                     errors = ls_errors st\<rparr>"
    using assms unfolding importContactsFromCSV_parsed[OF Rows] st_def Let_def
    by (simp split: option.splits)
  have "length (ls_successfulRecords st) + length (ls_errors st) = length contacts"
    unfolding st_def using import_loop_counts[of w "initial_state (tr @ [EvParse filePath])" contacts]
    by simp
  then show ?thesis using Rows by (simp add: agg)
qed

text \<open>The theorem at the three-row upload: one record created, two rows failed.\<close>

theorem import_result_invariant_witness:
  "fst (importContactsFromCSV demo_world [] ''up.csv'') = Returned demo_import_result
   \<and> totalProcessed demo_import_result = successful demo_import_result + failed demo_import_result
   \<and> successful demo_import_result = length (successfulRecords demo_import_result)
   \<and> failed demo_import_result = length (errors demo_import_result)
   \<and> parse_csv demo_world [] ''up.csv'' = Rows demo_rows
   \<and> length demo_rows =
       length (successfulRecords demo_import_result) + length (errors demo_import_result)"
proof -
  have run: "fst (importContactsFromCSV demo_world [] ''up.csv'') = Returned demo_import_result"
    by code_simp
  have parse: "parse_csv demo_world [] ''up.csv'' = Rows demo_rows"
    by (simp add: demo_world_def)
  from import_result_invariant[OF run] show ?thesis using run parse by auto
qed

text \<open>
  Claim C3.  The two failure paths record different things.  When the create call raises,
  the handler appends the row as parsed (\<open>raised_entry\<close>).  When the create call answers
  with \<^verbatim>\<open>success\<close> false, line 57 appends \<^verbatim>\<open>contactRecord\<close>, the record after field
  mapping and account resolution, not the parsed row (\<open>reported_failure_entry\<close>).  In the
  three-row upload the second row raises and the third is answered with a failure: the
  first entry holds the second row as parsed, the second entry holds the mapped third
  row, whose empty last name has become the placeholder and whose column \<^verbatim>\<open>Nick\<close> is
  gone.
\<close>

theorem reported_failure_keeps_mapped_record:
  "fst (importContactsFromCSV demo_world [] ''up.csv'') = Returned demo_import_result
   \<and> map ee_record (errors demo_import_result) = [demo_rows ! 1, mapContactFields (demo_rows ! 2)]
   \<and> mapContactFields (demo_rows ! 2) =
        [(''LastName'', ''Unknown''), (''FirstName'', ''Cy''), (''Score__c'', [])]
   \<and> demo_rows ! 2 =
        [(''FirstName'', ''Cy''), (''LastName'', ''''), (''Score__c'', ''''), (''Nick'', ''C'')]"
  by code_simp

text \<open>
  Claim C7, as the code has it.  When the parser emits an error, the promise is rejected,
  the exception is thrown to the caller and no \<^verbatim>\<open>unlinkSync\<close> call is made.  When the
  parser delivers rows, \<^verbatim>\<open>unlinkSync\<close> is called on the upload exactly once, as the last
  call, after the loop, whatever the rows did; the aggregate is returned when that call
  succeeds, and when it raises the outer handler rethrows and the exception is thrown to
  the caller instead of the aggregate.  The statement is about these two ends of the
  parse step; what the call does when the file itself cannot be read is the subject of
  \<open>importContactsFromCSV_reader_error\<close>, not of this theorem.
\<close>

theorem import_cleanup:
  fixes w :: "string world"
  shows
  "(parse_csv w tr filePath = ParserError e \<longrightarrow>
      importContactsFromCSV w tr filePath = (Thrown e, tr @ [EvParse filePath])
      \<and> filter is_unlink (new_events tr (snd (importContactsFromCSV w tr filePath))) = [])
   \<and> (parse_csv w tr filePath = Rows contacts \<longrightarrow>
        (let st = import_loop w (initial_state (tr @ [EvParse filePath])) contacts
         in snd (importContactsFromCSV w tr filePath) = ls_trace st @ [EvUnlink filePath]
          \<and> filter is_unlink (new_events tr (snd (importContactsFromCSV w tr filePath)))
              = [EvUnlink filePath]
          \<and> fst (importContactsFromCSV w tr filePath) =
              (case fs_unlink w (ls_trace st) filePath of
                 Some e' \<Rightarrow> Thrown e'
               | None \<Rightarrow> Returned \<lparr>totalProcessed = length contacts,
                                successful = length (ls_successfulRecords st),
                                failed = length (ls_errors st),
                                successfulRecords = ls_successfulRecords st,
                                errors = ls_errors st\<rparr>)))"
proof (intro conjI impI)
  assume p: "parse_csv w tr filePath = ParserError e"
  show "importContactsFromCSV w tr filePath = (Thrown e, tr @ [EvParse filePath])"
    by (rule importContactsFromCSV_parse_error[OF p])
  show "filter is_unlink (new_events tr (snd (importContactsFromCSV w tr filePath))) = []"
    unfolding importContactsFromCSV_parse_error[OF p] by (simp add: is_unlink_def)
next
  assume p: "parse_csv w tr filePath = Rows contacts"
  define st where "st = import_loop w (initial_state (tr @ [EvParse filePath])) contacts"
  obtain evs where evs: "ls_trace st = (tr @ [EvParse filePath]) @ evs" "filter is_unlink evs = []"
    unfolding st_def using import_loop_events[of w "initial_state (tr @ [EvParse filePath])" contacts]
    by auto
  have tr: "snd (importContactsFromCSV w tr filePath) = ls_trace st @ [EvUnlink filePath]"
    unfolding importContactsFromCSV_parsed[OF p] Let_def st_def by simp
  have once: "filter is_unlink (new_events tr (snd (importContactsFromCSV w tr filePath)))
                = [EvUnlink filePath]"
    unfolding tr evs(1) using evs(2) by (simp add: is_unlink_def)
  have res: "fst (importContactsFromCSV w tr filePath) =
              (case fs_unlink w (ls_trace st) filePath of
                 Some e' \<Rightarrow> Thrown e'
               | None \<Rightarrow> Returned \<lparr>totalProcessed = length contacts,
                                successful = length (ls_successfulRecords st),
                                failed = length (ls_errors st),
                                successfulRecords = ls_successfulRecords st,
                                errors = ls_errors st\<rparr>)"
    unfolding importContactsFromCSV_parsed[OF p] Let_def st_def by simp
  show "let st = import_loop w (initial_state (tr @ [EvParse filePath])) contacts
         in snd (importContactsFromCSV w tr filePath) = ls_trace st @ [EvUnlink filePath]
          \<and> filter is_unlink (new_events tr (snd (importContactsFromCSV w tr filePath)))
              = [EvUnlink filePath]
          \<and> fst (importContactsFromCSV w tr filePath) =
              (case fs_unlink w (ls_trace st) filePath of
                 Some e' \<Rightarrow> Thrown e'
               | None \<Rightarrow> Returned \<lparr>totalProcessed = length contacts,
                                successful = length (ls_successfulRecords st),
                                failed = length (ls_errors st),
                                successfulRecords = ls_successfulRecords st,
                                errors = ls_errors st\<rparr>)"
    unfolding Let_def st_def[symmetric] using tr once res by blast
qed

text \<open>
  The theorem at an upload on which the parser emits an error, at the three-row upload,
  and at the same upload on a file system that refuses the removal.
\<close>

theorem import_cleanup_witness:
  "parse_csv demo_world [] ''bad.csv'' = ParserError (Error ''Row exceeds the maximum size'')
   \<and> importContactsFromCSV demo_world [] ''bad.csv''
       = (Thrown (Error ''Row exceeds the maximum size''), [] @ [EvParse ''bad.csv''])
   \<and> filter is_unlink (new_events [] (snd (importContactsFromCSV demo_world [] ''bad.csv''))) = []
   \<and> parse_csv demo_world [] ''up.csv'' = Rows demo_rows
   \<and> filter is_unlink (new_events [] (snd (importContactsFromCSV demo_world [] ''up.csv'')))
        = [EvUnlink ''up.csv'']
   \<and> fst (importContactsFromCSV demo_world [] ''up.csv'') = Returned demo_import_result
   \<and> parse_csv readonly_world [] ''up.csv'' = Rows demo_rows
   \<and> filter is_unlink (new_events [] (snd (importContactsFromCSV readonly_world [] ''up.csv'')))
        = [EvUnlink ''up.csv'']"
proof -
  have p1: "parse_csv demo_world [] ''bad.csv'' = ParserError (Error ''Row exceeds the maximum size'')"
    by (simp add: demo_world_def)
  have p2: "parse_csv demo_world [] ''up.csv'' = Rows demo_rows"
    by (simp add: demo_world_def)
  have p3: "parse_csv readonly_world [] ''up.csv'' = Rows demo_rows"
    by (simp add: demo_world_def readonly_world_def)
  note a = import_cleanup[of demo_world "[]" "''bad.csv''" "Error ''Row exceeds the maximum size''",
      THEN conjunct1, rule_format, OF p1]
  note b = import_cleanup[of demo_world "[]" "''up.csv''" _ demo_rows, THEN conjunct2, rule_format, OF p2, unfolded Let_def]
  note c = import_cleanup[of readonly_world "[]" "''up.csv''" _ demo_rows, THEN conjunct2, rule_format, OF p3, unfolded Let_def]
  show ?thesis
    using p1 p2 p3 a b[THEN conjunct2, THEN conjunct1] c[THEN conjunct2, THEN conjunct1]
      demo_import_run by blast
qed

text \<open>
  Claim C7 as stated fails where the removal raises: the rows are parsed and processed,
  \<^verbatim>\<open>unlinkSync\<close> is called, and the caller gets its exception, not the aggregate.
\<close>

theorem unlink_failure_counterexample:
  "parse_csv readonly_world [] ''up.csv'' = Rows demo_rows
   \<and> importContactsFromCSV readonly_world [] ''up.csv'' =
       (Thrown (Error ''EPERM''),
        demo_trace_at_raise @
        [EvCreate ''Contact'' [(''LastName'', ''Unknown''), (''FirstName'', ''Cy''), (''Score__c'', [])],
         EvUnlink ''up.csv''])"
  by code_simp

text \<open>
  Claim C4.  Take a row with a non-empty \<^verbatim>\<open>AccountName\<close>, processed from the state
  \<open>st\<close>; \<open>submitted\<close> is the record handed to the Contact create call.  Identifiers are
  non-empty strings, as Salesforce's are (the code attaches an identifier only when it
  is truthy).
  \<^item> When the query for the exact name answers with at least one record, \<open>submitted\<close>
    carries the first record's \<^verbatim>\<open>Id\<close> as its \<^verbatim>\<open>AccountId\<close>.
  \<^item> When the query answers with no record and the Account create succeeds,
    \<open>submitted\<close> carries the new identifier.
  \<^item> When the query raises, or the Account create raises or reports a failure,
    \<open>submitted\<close> has no \<^verbatim>\<open>AccountId\<close>.
  \<^item> In every case \<open>submitted\<close> has no \<^verbatim>\<open>AccountName\<close>, and the row goes on to its own
    create call: the last call of the iteration is the Contact create of \<open>submitted\<close>.
\<close>

theorem account_resolution:
  fixes w :: "string world"
  assumes named: "js_get contact ''AccountName'' = Some name" "name \<noteq> []"
  shows
   "let tr = ls_trace st;
        submitted = fst (resolveContact w tr contact);
        lookup = sf_query w tr (account_query name);
        creation = sf_create w (tr @ [EvQuery (account_query name)]) ''Account'' [(''Name'', name)]
    in (lookup = Inr result \<and> records result = Some (r # rs) \<and> js_get r ''Id'' = Some i \<and> i \<noteq> []
          \<longrightarrow> js_get submitted ''AccountId'' = Some i)
     \<and> (lookup = Inr result \<and> records result \<in> {None, Some []} \<and> creation = Inr cr
          \<and> sr_success cr \<and> sr_id cr \<noteq> []
          \<longrightarrow> js_get submitted ''AccountId'' = Some (sr_id cr))
     \<and> (lookup = Inl e
          \<or> (lookup = Inr result \<and> records result \<in> {None, Some []}
              \<and> (creation = Inl e \<or> (creation = Inr cr \<and> \<not> sr_success cr)))
          \<longrightarrow> js_get submitted ''AccountId'' = None)
     \<and> js_get submitted ''AccountName'' = None
     \<and> last (ls_trace (process_contact w st contact)) = EvCreate ''Contact'' submitted"
proof -
  note aid = resolveContact_AccountId[OF named, of w "ls_trace st"]
  have found: "js_get (fst (resolveContact w (ls_trace st) contact)) ''AccountId'' = Some i"
    if "sf_query w (ls_trace st) (account_query name) = Inr result"
      "records result = Some (r # rs)" "js_get r ''Id'' = Some i" "i \<noteq> []"
    unfolding aid findOrCreateAccount_found[OF that(1,2)] using that(3,4)
    by (simp add: truthy_def)
  have created: "js_get (fst (resolveContact w (ls_trace st) contact)) ''AccountId'' = Some (sr_id cr)"
    if "sf_query w (ls_trace st) (account_query name) = Inr result"
      "records result \<in> {None, Some []}"
      "sf_create w (ls_trace st @ [EvQuery (account_query name)]) ''Account'' [(''Name'', name)] = Inr cr"
      "sr_success cr" "sr_id cr \<noteq> []"
    unfolding aid findOrCreateAccount_created[OF that(1,2,3)] using that(4,5)
    by (simp add: truthy_def)
  have failed: "js_get (fst (resolveContact w (ls_trace st) contact)) ''AccountId'' = None"
    if "sf_query w (ls_trace st) (account_query name) = Inl e
          \<or> (sf_query w (ls_trace st) (account_query name) = Inr result
              \<and> records result \<in> {None, Some []}
              \<and> (sf_create w (ls_trace st @ [EvQuery (account_query name)]) ''Account''
                    [(''Name'', name)] = Inl e
                  \<or> (sf_create w (ls_trace st @ [EvQuery (account_query name)]) ''Account''
                    [(''Name'', name)] = Inr cr \<and> \<not> sr_success cr)))"
  proof -
    have "fst (findOrCreateAccount w (ls_trace st) name) = None"
      using that findOrCreateAccount_failed[of w "ls_trace st" name e result]
        findOrCreateAccount_created[of w "ls_trace st" name result cr]
      by auto
    then show ?thesis unfolding aid by simp
  qed
  show ?thesis
    unfolding Let_def
    using found created failed resolveContact_AccountName[of w "ls_trace st" contact]
      process_contact_last[of w st contact]
    by blast
qed

text \<open>
  The theorem at four rows: Acme is found, Globex is created, the query for Initech
  raises, the Account create for Hooli reports a failure.
\<close>

theorem account_resolution_witness:
  "js_get (fst (resolveContact demo_world [] (row_of_account ''Acme''))) ''AccountId'' = Some ''001A''
   \<and> js_get (fst (resolveContact demo_world [] (row_of_account ''Globex''))) ''AccountId'' = Some ''001N''
   \<and> js_get (fst (resolveContact demo_world [] (row_of_account ''Initech''))) ''AccountId'' = None
   \<and> js_get (fst (resolveContact demo_world [] (row_of_account ''Hooli''))) ''AccountId'' = None
   \<and> js_get (fst (resolveContact demo_world [] (row_of_account ''Hooli''))) ''AccountName'' = None
   \<and> last (ls_trace (process_contact demo_world (initial_state []) (row_of_account ''Hooli'')))
       = EvCreate ''Contact'' (fst (resolveContact demo_world [] (row_of_account ''Hooli'')))"
proof -
  have named: "js_get (row_of_account n) ''AccountName'' = Some n" for n
    by (simp add: row_of_account_def js_get_def)
  have ne: "''Acme'' \<noteq> []" "''Globex'' \<noteq> []" "''Initech'' \<noteq> []" "''Hooli'' \<noteq> []"
    by simp_all
  have q1: "sf_query demo_world [] (account_query ''Acme'')
              = Inr \<lparr>records = Some ([(''attributes'', ''Account''), (''Id'', ''001A'')] # [])\<rparr>"
    by code_simp
  have q2: "sf_query demo_world [] (account_query ''Globex'') = Inr \<lparr>records = Some []\<rparr>"
    by code_simp
  have q3: "sf_query demo_world [] (account_query ''Initech'') = Inl (Error ''MALFORMED_QUERY'')"
    by code_simp
  have q4: "sf_query demo_world [] (account_query ''Hooli'') = Inr \<lparr>records = None\<rparr>"
    by code_simp
  have c2: "sf_create demo_world ([] @ [EvQuery (account_query ''Globex'')]) ''Account''
              [(''Name'', ''Globex'')]
              = Inr \<lparr>sr_success = True, sr_id = ''001N'', sr_errors = Some []\<rparr>"
    by code_simp
  have c4: "sf_create demo_world ([] @ [EvQuery (account_query ''Hooli'')]) ''Account''
              [(''Name'', ''Hooli'')]
              = Inr \<lparr>sr_success = False, sr_id = [], sr_errors = Some [''DUPLICATE'']\<rparr>"
    by code_simp
  note acme = account_resolution[where w = demo_world and st = "initial_state []"
      and result = "\<lparr>records = Some ([(''attributes'', ''Account''), (''Id'', ''001A'')] # [])\<rparr>"
      and r = "[(''attributes'', ''Account''), (''Id'', ''001A'')]" and rs = "[]"
      and i = "''001A''",
      OF named ne(1), unfolded Let_def initial_state_simps]
  note globex = account_resolution[where w = demo_world and st = "initial_state []"
      and result = "\<lparr>records = Some []\<rparr>"
      and cr = "\<lparr>sr_success = True, sr_id = ''001N'', sr_errors = Some []\<rparr>",
      OF named ne(2), unfolded Let_def initial_state_simps]
  note initech = account_resolution[where w = demo_world and st = "initial_state []"
      and e = "Error ''MALFORMED_QUERY''",
      OF named ne(3), unfolded Let_def initial_state_simps]
  note hooli = account_resolution[where w = demo_world and st = "initial_state []"
      and result = "\<lparr>records = None\<rparr>"
      and cr = "\<lparr>sr_success = False, sr_id = [], sr_errors = Some [''DUPLICATE'']\<rparr>",
      OF named ne(4), unfolded Let_def initial_state_simps]
  have r1: "js_get (fst (resolveContact demo_world [] (row_of_account ''Acme''))) ''AccountId''
              = Some ''001A''"
    by (rule acme[THEN conjunct1, rule_format]) (simp add: q1 js_get_def)
  have r2: "js_get (fst (resolveContact demo_world [] (row_of_account ''Globex''))) ''AccountId''
              = Some ''001N''"
    using globex[THEN conjunct2, THEN conjunct1, rule_format] q2 c2 by simp
  have r3: "js_get (fst (resolveContact demo_world [] (row_of_account ''Initech''))) ''AccountId''
              = None"
    using initech[THEN conjunct2, THEN conjunct2, THEN conjunct1, rule_format] q3 by simp
  have r4: "js_get (fst (resolveContact demo_world [] (row_of_account ''Hooli''))) ''AccountId''
              = None"
    using hooli[THEN conjunct2, THEN conjunct2, THEN conjunct1, rule_format] q4 c4 by simp
  note r5 = hooli[THEN conjunct2, THEN conjunct2, THEN conjunct2, THEN conjunct1]
  note r6 = hooli[THEN conjunct2, THEN conjunct2, THEN conjunct2, THEN conjunct2]
  show ?thesis using r1 r2 r3 r4 r5 r6 by blast
qed

text \<open>
  Claim C5.  When the row has no \<^verbatim>\<open>LastName\<close> or an empty one, the candidate record's
  \<^verbatim>\<open>LastName\<close> is the placeholder \<^verbatim>\<open>Unknown\<close>; when the row has a non-empty one, the
  candidate record's \<^verbatim>\<open>LastName\<close> is that value.
\<close>

theorem lastname_placeholder:
  "(js_get csvContact ''LastName'' = None \<or> js_get csvContact ''LastName'' = Some []
      \<longrightarrow> js_get (mapContactFields csvContact) ''LastName'' = Some ''Unknown'')
   \<and> (js_get csvContact ''LastName'' = Some v \<and> v \<noteq> []
      \<longrightarrow> js_get (mapContactFields csvContact) ''LastName'' = Some v)"
  unfolding js_get_mapContactFields[of csvContact "''LastName''"]
  using LastName_not_listed(4) by auto

text \<open>The theorem at a row with an empty last name, a row without one and a row with one.\<close>

theorem lastname_placeholder_witness:
  "js_get (mapContactFields (demo_rows ! 2)) ''LastName'' = Some ''Unknown''
   \<and> js_get (mapContactFields demo_sparse_row) ''LastName'' = Some ''Unknown''
   \<and> js_get (mapContactFields (demo_rows ! 0)) ''LastName'' = Some ''Lee''"
proof -
  have h1: "js_get (demo_rows ! 2) ''LastName'' = None \<or> js_get (demo_rows ! 2) ''LastName'' = Some []"
    by (simp add: demo_rows_def js_get_def)
  have h2: "js_get demo_sparse_row ''LastName'' = None \<or> js_get demo_sparse_row ''LastName'' = Some []"
    by (simp add: demo_sparse_row_def js_get_def)
  have h3: "js_get (demo_rows ! 0) ''LastName'' = Some ''Lee'' \<and> ''Lee'' \<noteq> []"
    by (simp add: demo_rows_def js_get_def)
  show ?thesis
    using lastname_placeholder[of "demo_rows ! 2", THEN conjunct1, rule_format, OF h1]
      lastname_placeholder[of demo_sparse_row, THEN conjunct1, rule_format, OF h2]
      lastname_placeholder[of "demo_rows ! 0" "''Lee''", THEN conjunct2, rule_format, OF h3]
    by blast
qed

text \<open>
  Claim C10.  For a key \<open>k\<close> of the row: a standard or mailing-address field with an
  empty value is left out of the candidate record (and one with a non-empty value is
  copied); a key ending in \<^verbatim>\<open>__c\<close> has in the candidate record exactly what it has in
  the row, the empty string included; any other key is dropped, unless it is one of the
  two names the function treats on their own, \<^verbatim>\<open>LastName\<close> (claim C5) and
  \<^verbatim>\<open>AccountName\<close> (kept for the account lookup when non-empty).
\<close>

theorem empty_values_asymmetric:
  "(k \<in> set standardFields \<union> set mailingFields \<and> js_get csvContact k = Some [] \<longrightarrow>
      js_get (mapContactFields csvContact) k = None)
   \<and> (k \<in> set standardFields \<union> set mailingFields \<and> js_get csvContact k = Some v \<and> v \<noteq> [] \<longrightarrow>
      js_get (mapContactFields csvContact) k = Some v)
   \<and> (endsWith k ''__c'' \<longrightarrow> js_get (mapContactFields csvContact) k = js_get csvContact k)
   \<and> (k \<notin> set standardFields \<union> set mailingFields \<union> {''LastName'', ''AccountName''}
        \<and> \<not> endsWith k ''__c'' \<longrightarrow>
      js_get (mapContactFields csvContact) k = None)"
proof (intro conjI impI)
  assume a: "k \<in> set standardFields \<union> set mailingFields \<and> js_get csvContact k = Some []"
  then have "\<not> endsWith k ''__c''" "k \<noteq> ''LastName''"
    using standard_not_custom mailing_not_custom LastName_not_listed by blast+
  then show "js_get (mapContactFields csvContact) k = None"
    unfolding js_get_mapContactFields[of csvContact k] using a by (simp add: truthy_def)
next
  assume a: "k \<in> set standardFields \<union> set mailingFields \<and> js_get csvContact k = Some v \<and> v \<noteq> []"
  then have "\<not> endsWith k ''__c''" "k \<noteq> ''LastName''"
    using standard_not_custom mailing_not_custom LastName_not_listed by blast+
  then show "js_get (mapContactFields csvContact) k = Some v"
    unfolding js_get_mapContactFields[of csvContact k] using a by (simp add: truthy_def)
next
  assume "endsWith k ''__c''"
  then show "js_get (mapContactFields csvContact) k = js_get csvContact k"
    unfolding js_get_mapContactFields[of csvContact k] by simp
next
  assume a: "k \<notin> set standardFields \<union> set mailingFields \<union> {''LastName'', ''AccountName''}
        \<and> \<not> endsWith k ''__c''"
  then show "js_get (mapContactFields csvContact) k = None"
    unfolding js_get_mapContactFields[of csvContact k] by simp
qed

text \<open>
  The theorem at a row with an empty first name, an empty city, a phone number, an
  empty custom column and a column outside the lists.
\<close>

theorem empty_values_asymmetric_witness:
  "js_get (mapContactFields demo_sparse_row) ''FirstName'' = None
   \<and> js_get (mapContactFields demo_sparse_row) ''MailingCity'' = None
   \<and> js_get (mapContactFields demo_sparse_row) ''Phone'' = Some ''555''
   \<and> js_get (mapContactFields demo_sparse_row) ''Score__c'' = Some []
   \<and> js_get (mapContactFields demo_sparse_row) ''Nick'' = None"
proof -
  have h1: "''FirstName'' \<in> set standardFields \<union> set mailingFields
            \<and> js_get demo_sparse_row ''FirstName'' = Some []"
    by (simp add: standardFields_def demo_sparse_row_def js_get_def)
  have h2: "''MailingCity'' \<in> set standardFields \<union> set mailingFields
            \<and> js_get demo_sparse_row ''MailingCity'' = Some []"
    by (simp add: mailingFields_def demo_sparse_row_def js_get_def)
  have h3: "''Phone'' \<in> set standardFields \<union> set mailingFields
            \<and> js_get demo_sparse_row ''Phone'' = Some ''555'' \<and> ''555'' \<noteq> []"
    by (simp add: standardFields_def demo_sparse_row_def js_get_def)
  have h4: "endsWith ''Score__c'' ''__c''"
    by (simp add: endsWith_def)
  have g4: "js_get demo_sparse_row ''Score__c'' = Some []"
    by (simp add: demo_sparse_row_def js_get_def)
  have h5: "''Nick'' \<notin> set standardFields \<union> set mailingFields \<union> {''LastName'', ''AccountName''}
            \<and> \<not> endsWith ''Nick'' ''__c''"
    by (simp add: standardFields_def mailingFields_def endsWith_def)
  note t = empty_values_asymmetric[of _ demo_sparse_row]
  have r1: "js_get (mapContactFields demo_sparse_row) ''FirstName'' = None"
    by (rule t[THEN conjunct1, rule_format, OF h1])
  have r2: "js_get (mapContactFields demo_sparse_row) ''MailingCity'' = None"
    by (rule t[THEN conjunct1, rule_format, OF h2])
  have r3: "js_get (mapContactFields demo_sparse_row) ''Phone'' = Some ''555''"
    by (rule t[THEN conjunct2, THEN conjunct1, rule_format, OF h3])
  have r4: "js_get (mapContactFields demo_sparse_row) ''Score__c'' = Some []"
    using t[THEN conjunct2, THEN conjunct2, THEN conjunct1, rule_format, OF h4] g4 by simp
  have r5: "js_get (mapContactFields demo_sparse_row) ''Nick'' = None"
    by (rule t[THEN conjunct2, THEN conjunct2, THEN conjunct2, rule_format, OF h5])
  show ?thesis using r1 r2 r3 r4 r5 by blast
qed

section \<open>Claims about the CSV report\<close>

text \<open>
  Claim C6.  When the query answers without a \<^verbatim>\<open>records\<close> property or with no record,
  \<open>generateCsvReport\<close> returns the object with \<^verbatim>\<open>success\<close> false and the reason
  \<^verbatim>\<open>No records found for the specified query\<close>; the query is the only external call it
  has made, so no file name was generated and no file was written.
\<close>

theorem report_without_rows:
  assumes "sf_query w tr soql = Inr queryResult"
    and "records queryResult = None \<or> records queryResult = Some []"
  shows "fst (generateCsvReport w tr soql reportName dir)
           = Inr (NoRecords ''No records found for the specified query'' soql)
       \<and> report_success (NoRecords ''No records found for the specified query'' soql) = False
       \<and> snd (generateCsvReport w tr soql reportName dir) = tr @ [EvQuery soql]
       \<and> filter is_write (new_events tr (snd (generateCsvReport w tr soql reportName dir))) = []"
proof -
  have run: "generateCsvReport w tr soql reportName dir
               = (Inr (NoRecords ''No records found for the specified query'' soql),
                  tr @ [EvQuery soql])"
    using assms by (auto simp: generateCsvReport_def Let_def)
  show ?thesis
    unfolding run by (simp add: report_success_def is_write_def)
qed

text \<open>The theorem at a query answered without records and at one answered with none.\<close>

theorem report_without_rows_witness:
  "sf_query demo_world [] ''SELECT Id FROM Lead'' = Inr \<lparr>records = None\<rparr>
   \<and> fst (generateCsvReport demo_world [] ''SELECT Id FROM Lead'' ''Leads'' ''/tmp'')
       = Inr (NoRecords ''No records found for the specified query'' ''SELECT Id FROM Lead'')
   \<and> snd (generateCsvReport demo_world [] ''SELECT Id FROM Lead'' ''Leads'' ''/tmp'')
       = [] @ [EvQuery ''SELECT Id FROM Lead'']
   \<and> sf_query demo_world [] (account_query ''Globex'') = Inr \<lparr>records = Some []\<rparr>
   \<and> filter is_write (new_events []
         (snd (generateCsvReport demo_world [] (account_query ''Globex'') ''Accounts'' ''/tmp''))) = []"
proof -
  have q1: "sf_query demo_world [] ''SELECT Id FROM Lead'' = Inr \<lparr>records = None\<rparr>"
    by code_simp
  have q2: "sf_query demo_world [] (account_query ''Globex'') = Inr \<lparr>records = Some []\<rparr>"
    by code_simp
  have e1: "records \<lparr>records = None :: string jsobj list option\<rparr> = None
            \<or> records \<lparr>records = None :: string jsobj list option\<rparr> = Some []"
    by simp
  have e2: "records \<lparr>records = Some ([] :: string jsobj list)\<rparr> = None
            \<or> records \<lparr>records = Some ([] :: string jsobj list)\<rparr> = Some []"
    by simp
  note a = report_without_rows[OF q1 e1, of "''Leads''" "''/tmp''"]
  note b = report_without_rows[OF q2 e2, of "''Accounts''" "''/tmp''"]
  show ?thesis
    using q1 q2 a[THEN conjunct1] a[THEN conjunct2, THEN conjunct2, THEN conjunct1]
      b[THEN conjunct2, THEN conjunct2, THEN conjunct2]
    by blast
qed

text \<open>
  Claim C9.  When the query answers with at least one record and the file is written,
  the \<^verbatim>\<open>fields\<close> of the returned object are the keys of the first record in the order
  \<^verbatim>\<open>Object.keys\<close> gives them, without \<^verbatim>\<open>attributes\<close>; as a set, the first record's
  keys minus that one.
\<close>

theorem report_fields_of_first_record:
  assumes "sf_query w tr soql = Inr queryResult"
    and "records queryResult = Some (r # rs)"
    and "fs_write w (tr @ [EvQuery soql])
           (path_join w dir
              (sanitize_name reportName @ ''_''
                 @ report_timestamp (clock_iso w (tr @ [EvQuery soql])) @ ''.csv'')) = None"
  shows "fst (generateCsvReport w tr soql reportName dir) =
           Inr (Report
             \<lparr>rd_filename = sanitize_name reportName @ ''_''
                 @ report_timestamp (clock_iso w (tr @ [EvQuery soql])) @ ''.csv'',
              rd_filePath = path_join w dir
                (sanitize_name reportName @ ''_''
                   @ report_timestamp (clock_iso w (tr @ [EvQuery soql])) @ ''.csv''),
              rd_recordCount = length (r # rs),
              rd_fields = filter (\<lambda>k. k \<noteq> ''attributes'') (js_keys r),
              rd_query = soql\<rparr>)
       \<and> set (filter (\<lambda>k. k \<noteq> ''attributes'') (js_keys r)) = fst ` set r - {''attributes''}"
  using assms
  by (auto simp: generateCsvReport_def Let_def report_fields_def set_js_keys)

text \<open>The theorem at a query answered with one record of three properties.\<close>

theorem report_fields_of_first_record_witness:
  "sf_query demo_world [] ''SELECT Id, Name FROM Contact''
     = Inr \<lparr>records = Some ([(''attributes'', ''Contact''), (''Id'', ''003C''),
                               (''Name'', ''Ann Lee'')] # [])\<rparr>
   \<and> fst (generateCsvReport demo_world [] ''SELECT Id, Name FROM Contact'' ''My report!'' ''/tmp'') =
       Inr (Report
             \<lparr>rd_filename = ''My_report__2024-01-02T03-04-05-678Z.csv'',
              rd_filePath = ''/tmp/My_report__2024-01-02T03-04-05-678Z.csv'',
              rd_recordCount = 1,
              rd_fields = [''Id'', ''Name''],
              rd_query = ''SELECT Id, Name FROM Contact''\<rparr>)"
proof -
  have q: "sf_query demo_world [] ''SELECT Id, Name FROM Contact''
     = Inr \<lparr>records = Some ([(''attributes'', ''Contact''), (''Id'', ''003C''),
                               (''Name'', ''Ann Lee'')] # [])\<rparr>"
    by code_simp
  have r: "records \<lparr>records = Some ([(''attributes'', ''Contact''), (''Id'', ''003C''),
                               (''Name'', ''Ann Lee'')] # [])\<rparr>
            = Some ([(''attributes'', ''Contact''), (''Id'', ''003C''), (''Name'', ''Ann Lee'')] # [])"
    by simp
  have wr: "fs_write demo_world ([] @ [EvQuery ''SELECT Id, Name FROM Contact''])
           (path_join demo_world ''/tmp''
              (sanitize_name ''My report!'' @ ''_''
                 @ report_timestamp (clock_iso demo_world ([] @ [EvQuery ''SELECT Id, Name FROM Contact'']))
                 @ ''.csv'')) = None"
    by (simp add: demo_world_def)
  have name: "sanitize_name ''My report!'' @ ''_''
                 @ report_timestamp (clock_iso demo_world ([] @ [EvQuery ''SELECT Id, Name FROM Contact'']))
                 @ ''.csv'' = ''My_report__2024-01-02T03-04-05-678Z.csv''"
    by code_simp
  have path: "path_join demo_world ''/tmp'' ''My_report__2024-01-02T03-04-05-678Z.csv''
                = ''/tmp/My_report__2024-01-02T03-04-05-678Z.csv''"
    by (simp add: demo_world_def)
  have fields: "filter (\<lambda>k. k \<noteq> ''attributes'')
                  (js_keys [(''attributes'', ''Contact''), (''Id'', ''003C''), (''Name'', ''Ann Lee'')])
                = [''Id'', ''Name'']"
    by (simp add: js_keys_def)
  have len: "length ([(''attributes'', ''Contact''), (''Id'', ''003C''), (''Name'', ''Ann Lee'')]
                  # ([] :: string jsobj list)) = 1"
    by simp
  note t = report_fields_of_first_record[OF q r wr, THEN conjunct1]
  have "fst (generateCsvReport demo_world [] ''SELECT Id, Name FROM Contact'' ''My report!'' ''/tmp'') =
       Inr (Report
             \<lparr>rd_filename = ''My_report__2024-01-02T03-04-05-678Z.csv'',
              rd_filePath = ''/tmp/My_report__2024-01-02T03-04-05-678Z.csv'',
              rd_recordCount = 1,
              rd_fields = [''Id'', ''Name''],
              rd_query = ''SELECT Id, Name FROM Contact''\<rparr>)"
    using t unfolding name path fields len .
  then show ?thesis using q by (intro conjI)
qed


section \<open>Claims about the rate limiter\<close>

text \<open>
  Claim C8.  The claim speaks of every caller key.  For a key that is not inherited from
  \<^verbatim>\<open>Object.prototype\<close> the window behaves as claimed
  (\<open>window_sequence_ordinary_key\<close>).  For the key \<^verbatim>\<open>constructor\<close>, and the
  eleven other inherited names, \<^verbatim>\<open>requestCounts[apiKey]\<close> is never undefined, no
  counter is ever created, and every request passes: six requests within six
  milliseconds all reach \<^verbatim>\<open>next()\<close>, none is answered 429, and the own properties of
  \<^verbatim>\<open>requestCounts\<close> stay empty.
\<close>

theorem inherited_key_is_never_limited:
  "rl_run \<lparr>x_api_key = Some ''constructor'', ip = ''::1''\<rparr>
          [1000, 1001, 1002, 1003, 1004, 1005] Map.empty
   = (replicate 6
        (Next \<lparr>x_ratelimit_limit = Num 5, x_ratelimit_remaining = NaN,
               x_ratelimit_reset = NaN\<rparr>),
      Map.empty)"
proof -
  have k: "caller_key \<lparr>x_api_key = Some ''constructor'', ip = ''::1''\<rparr>
             \<in> set object_prototype_names"
    by (simp add: caller_key_def object_prototype_names_def)
  have len: "length [1000, 1001, 1002, 1003, 1004, 1005 :: int] = 6"
    by simp
  have "rl_run \<lparr>x_api_key = Some ''constructor'', ip = ''::1''\<rparr>
          [1000, 1001, 1002, 1003, 1004, 1005] Map.empty
        = (replicate (length [1000, 1001, 1002, 1003, 1004, 1005 :: int])
            (Next \<lparr>x_ratelimit_limit = Num 5, x_ratelimit_remaining = NaN,
                   x_ratelimit_reset = NaN\<rparr>),
           Map.empty)"
    by (rule rl_run_inherited[where requestCounts = Map.empty, OF k]) simp
  then show ?thesis unfolding len .
qed

end
